theory Spec2Isabelle
  imports Complex_Main
begin

section \<open>The PSO engine of pypso/Pso.py (branch 0.22)\<close>

text \<open>
  The engine is the class \<open>PSO.Singleton\<close>; \<open>PSO\<close> itself is a handle that forwards every
  attribute to one shared instance. The model follows the Python 2 source statement by
  statement:
  \<^item> the attributes of \<open>Singleton\<close> are the record \<open>pso\<close>; \<open>None\<close> is \<open>None\<close>;
  \<^item> a method is a function from the state to either \<open>Inl (e, s)\<close>, the exception \<open>e\<close> raised
    in state \<open>s\<close> (Python mutates in place, so what was assigned before the raise stays), or
    \<open>Inr s\<close>, the state on return;
  \<^item> the topology, the report adapter, the console and the keyboard are other modules. The
    calls made to them are appended to \<open>trace\<close>, each with the value of \<open>currentStep\<close> at the
    call; the swarm held by the topology is a function of that history;
  \<^item> floats are real numbers: rounding is outside the model.
  The attributes \<open>C1\<close>, \<open>C2\<close> and \<open>minimax\<close>, which no method modelled here reads, are left out.
\<close>

subsection \<open>Data\<close>

datatype error =
    TypeError string
  | ValueError string
  | IndexError
  | ZeroDivisionError
  | AttributeError
  | KeyboardInterrupt

text \<open>Modelled from the spec: \<open>Consts.psoType\<close> (module Consts is not part of the sources);
  the spec names the variants BASIC, CONSTRICTED and INERTIA.\<close>

datatype pso_type = BASIC | CONSTRICTED | INERTIA

text \<open>The class of the topology object: \<open>constructSolution\<close> tests
  \<open>type(self.topology) is pypso.LocalTopology.LocalTopology\<close>, which a subclass fails.\<close>

datatype topology_class = GlobalTopology | LocalTopology | OtherTopology

text \<open>The values a caller can pass as a bound.\<close>

datatype pyvalue = PyNone | PyFloat real | PyTuple "real list" | PyList "real list"

record report_adapter =
  statsGenFreq :: int

datatype platform = Win | Linux | OtherPlatform

datatype event =
    TopologyInitialize
  | UpdateParticlesPosition
  | UpdateParticlesInformation
  | StoreBestParticle
  | UpdateInertiaFactor
  | TopologyStatistics
  | TopologyGetStatistics
  | TopologyPrintStats
  | ReportOpen
  | ReportInsert int
  | ReportSaveAndClose
  | PrintInitialized
  | PrintStarting
  | PrintStep int
  | PrintTimeElapsed
  | PrintBreak
  | KeyboardPoll
  | InteractiveSession

text \<open>The defaults read from module Consts, which is not part of the sources: parameters.\<close>

record Consts =
  CDefPsoType :: pso_type
  CDefSteps :: int
  CDefInertiaFactorStart :: real
  CDefInertiaFactorEnd :: real

record pso =
  psoType :: pso_type
  topology :: "topology_class option"
  timeSteps :: int
  interactiveMode :: bool
  currentStep :: int
  function' :: "string option"
  inertiaFactorMinus :: "real option"
  inertiaFactor :: "real option"
  time_init :: "real option"
  positionBounds :: "pyvalue list"
  initialPositionBounds :: "pyvalue list"
  velocityBounds :: "pyvalue list"
  reportAdapter :: "report_adapter option"

text \<open>What surrounds a run: the platform string, the clock read at line 251, and whether the
  ESC key is waiting when the loop polls the keyboard at a given step.\<close>

record env =
  sys_platform :: platform
  now :: real
  escHit :: "int \<Rightarrow> bool"

text \<open>
  A run: the engine, the calls made so far, and the external interrupt. \<open>pending = Some k\<close>
  means that Ctrl-C arrives after \<open>k\<close> more statements; \<open>None\<close> that it never does.
\<close>

record world =
  engine :: pso
  trace :: "(int \<times> event) list"
  pending :: "nat option"

definition bind :: "'e + 'a \<Rightarrow> ('a \<Rightarrow> 'e + 'b) \<Rightarrow> 'e + 'b" where
  "bind r f = (case r of Inl e \<Rightarrow> Inl e | Inr x \<Rightarrow> f x)"

text \<open>Modelled from the spec: \<open>Util.raiseException(message, exception)\<close> (module Util is not
  part of the sources); the spec has every such call fail with a descriptive error.\<close>

definition raiseException :: "error \<Rightarrow> 's \<Rightarrow> error \<times> 's + 'a" where
  "raiseException e s = Inl (e, s)"

subsection \<open>Construction and setters\<close>

definition Singleton_init :: "Consts \<Rightarrow> bool \<Rightarrow> pso" where
  "Singleton_init c interactive =
     \<lparr> psoType = CDefPsoType c, topology = None, timeSteps = CDefSteps c,
       interactiveMode = interactive, currentStep = 0, function' = None,
       inertiaFactorMinus = None, inertiaFactor = None, time_init = None,
       positionBounds = [], initialPositionBounds = [], velocityBounds = [],
       reportAdapter = None \<rparr>"

definition setFunction :: "string \<Rightarrow> pso \<Rightarrow> pso" where
  "setFunction f p = p\<lparr>function' := Some f\<rparr>"

text \<open>The argument is one of the three variants, so the membership test of the source
  (\<open>psoType not in Consts.psoType.values()\<close>) cannot fail here.\<close>

definition setPsoType :: "pso_type \<Rightarrow> pso \<Rightarrow> pso" where
  "setPsoType t p = p\<lparr>psoType := t\<rparr>"

definition setTopology :: "topology_class \<Rightarrow> pso \<Rightarrow> pso" where
  "setTopology t p = p\<lparr>topology := Some t\<rparr>"

definition setReportAdapter :: "report_adapter \<Rightarrow> pso \<Rightarrow> pso" where
  "setReportAdapter a p = p\<lparr>reportAdapter := Some a\<rparr>"

definition setTimeSteps :: "int \<Rightarrow> pso \<Rightarrow> error \<times> pso + pso" where
  "setTimeSteps num_steps p =
     (if num_steps < 1 then raiseException (ValueError ''Number of steps must be >=1'') p
      else Inr (p\<lparr>timeSteps := num_steps\<rparr>))"

subsection \<open>Bounds\<close>

text \<open>\<open>for i in xrange(dimensions)\<close>: one append to each list per index; none when
  \<open>dimensions\<close> is not positive.\<close>

definition initializeBounds :: "int \<Rightarrow> pso \<Rightarrow> pso" where
  "initializeBounds dimensions p =
     p\<lparr> initialPositionBounds := initialPositionBounds p @ replicate (nat dimensions) (PyTuple [0, 0]),
        positionBounds := positionBounds p @ replicate (nat dimensions) (PyTuple [0, 0]),
        velocityBounds := velocityBounds p @ replicate (nat dimensions) (PyFloat 0) \<rparr>"

text \<open>\<open>xs[i] = v\<close>: a negative index counts from the end; out of range raises IndexError.\<close>

definition setitem :: "'a list \<Rightarrow> int \<Rightarrow> 'a \<Rightarrow> error + 'a list" where
  "setitem xs i v =
     (let n = int (length xs); j = (if i < 0 then n + i else i)
      in if 0 \<le> j \<and> j < n then Inr (xs[nat j := v]) else Inl IndexError)"

text \<open>\<open>for i in range(first, last): xs[i] = v\<close>: the assignments made before an IndexError
  stay.\<close>

fun assign_range :: "'a list \<Rightarrow> int list \<Rightarrow> 'a \<Rightarrow> error \<times> 'a list + 'a list" where
  "assign_range xs [] v = Inr xs"
| "assign_range xs (i # is) v =
     (case setitem xs i v of
        Inl e \<Rightarrow> Inl (e, xs)
      | Inr xs' \<Rightarrow> assign_range xs' is v)"

definition is_tuple :: "pyvalue \<Rightarrow> bool" where
  "is_tuple v = (case v of PyTuple _ \<Rightarrow> True | _ \<Rightarrow> False)"

definition definePositionBounds :: "int \<Rightarrow> int \<Rightarrow> pyvalue \<Rightarrow> pso \<Rightarrow> error \<times> pso + pso" where
  "definePositionBounds firstDimension lastDimension minMaxValue p =
     (if \<not> is_tuple minMaxValue
      then raiseException (TypeError ''minMaxValue type must be a tuple (a,b).'') p
      else (case assign_range (positionBounds p) [firstDimension..lastDimension - 1] minMaxValue of
              Inl (e, xs) \<Rightarrow> Inl (e, p\<lparr>positionBounds := xs\<rparr>)
            | Inr xs \<Rightarrow> Inr (p\<lparr>positionBounds := xs\<rparr>)))"

definition defineInitialPositionBounds :: "int \<Rightarrow> int \<Rightarrow> pyvalue \<Rightarrow> pso \<Rightarrow> error \<times> pso + pso" where
  "defineInitialPositionBounds firstDimension lastDimension minMaxValue p =
     (if \<not> is_tuple minMaxValue
      then raiseException (TypeError ''minMaxValue type must be a tuple (a,b).'') p
      else (case assign_range (initialPositionBounds p) [firstDimension..lastDimension - 1] minMaxValue of
              Inl (e, xs) \<Rightarrow> Inl (e, p\<lparr>initialPositionBounds := xs\<rparr>)
            | Inr xs \<Rightarrow> Inr (p\<lparr>initialPositionBounds := xs\<rparr>)))"

definition defineVelocityBounds :: "int \<Rightarrow> int \<Rightarrow> pyvalue \<Rightarrow> pso \<Rightarrow> error \<times> pso + pso" where
  "defineVelocityBounds firstDimensiom lastDimensiom v p =
     (case assign_range (velocityBounds p) [firstDimensiom..lastDimensiom - 1] v of
        Inl (e, xs) \<Rightarrow> Inl (e, p\<lparr>velocityBounds := xs\<rparr>)
      | Inr xs \<Rightarrow> Inr (p\<lparr>velocityBounds := xs\<rparr>))"

subsection \<open>Inertia schedule\<close>

text \<open>\<open>abs(start - end) / self.timeSteps\<close> with float arguments: a float division, which raises
  ZeroDivisionError on a zero divisor. Nothing happens for another variant.\<close>

definition setInitialInertiaFactor :: "real \<Rightarrow> real \<Rightarrow> pso \<Rightarrow> error \<times> pso + pso" where
  "setInitialInertiaFactor inertiaFactorStart inertiaFactorEnd p =
     (if psoType p = INERTIA
      then (if timeSteps p = 0 then Inl (ZeroDivisionError, p)
            else Inr (p\<lparr> inertiaFactorMinus :=
                            Some (\<bar>inertiaFactorStart - inertiaFactorEnd\<bar> / real_of_int (timeSteps p)),
                         inertiaFactor := Some inertiaFactorStart \<rparr>))
      else Inr p)"

text \<open>\<open>self.inertiaFactor - self.inertiaFactorMinus\<close>: Python raises TypeError when an operand
  is \<open>None\<close>.\<close>

definition updateInertiaFactor :: "pso \<Rightarrow> error \<times> pso + pso" where
  "updateInertiaFactor p =
     (case (inertiaFactor p, inertiaFactorMinus p) of
        (Some f, Some m) \<Rightarrow> Inr (p\<lparr>inertiaFactor := Some (f - m)\<rparr>)
      | _ \<Rightarrow> Inl (TypeError ''unsupported operand type(s) for -'', p))"

subsection \<open>Parameter check\<close>

text \<open>\<open>not x\<close> on a number or \<open>None\<close>: true for \<open>None\<close> and for zero. A topology object
  and a function are true, so for them \<open>not x\<close> is the test for \<open>None\<close>; an empty list is
  false.\<close>

definition falsy :: "real option \<Rightarrow> bool" where
  "falsy x = (case x of None \<Rightarrow> True | Some v \<Rightarrow> v = 0)"

definition checkParametersSet :: "pso \<Rightarrow> error \<times> pso + pso" where
  "checkParametersSet p =
     (if topology p = None \<or> function' p = None
      then raiseException (TypeError ''Topology/Evaluation fuction not yet defined.'') p
      else if psoType p = INERTIA \<and> (falsy (inertiaFactorMinus p) \<or> falsy (inertiaFactor p))
      then raiseException (TypeError ''Set the setInitialInertiaFactor() for the Inertia weight.'') p
      else if initialPositionBounds p = [] \<or> velocityBounds p = [] \<or> positionBounds p = []
      then raiseException (TypeError ''The Position/Velocity/InitialPos Bounds not yet defined.'') p
      else Inr p)"

subsection \<open>Calls, and the interrupt\<close>

definition tick :: "world \<Rightarrow> error \<times> world + world" where
  "tick w =
     (case pending w of
        None \<Rightarrow> Inr w
      | Some 0 \<Rightarrow> Inl (KeyboardInterrupt, w\<lparr>pending := None\<rparr>)
      | Some (Suc k) \<Rightarrow> Inr (w\<lparr>pending := Some k\<rparr>))"

definition emit :: "event \<Rightarrow> world \<Rightarrow> world" where
  "emit ev w = w\<lparr>trace := trace w @ [(currentStep (engine w), ev)]\<rparr>"

definition call :: "event \<Rightarrow> world \<Rightarrow> error \<times> world + world" where
  "call ev w = bind (tick w) (\<lambda>w. Inr (emit ev w))"

text \<open>A method of \<open>self.topology\<close>: AttributeError when the topology is \<open>None\<close>.\<close>

definition topology_call :: "event \<Rightarrow> world \<Rightarrow> error \<times> world + world" where
  "topology_call ev w =
     (case topology (engine w) of
        None \<Rightarrow> Inl (AttributeError, w)
      | Some _ \<Rightarrow> call ev w)"

definition lift :: "(pso \<Rightarrow> error \<times> pso + pso) \<Rightarrow> world \<Rightarrow> error \<times> world + world" where
  "lift f w =
     (case f (engine w) of
        Inl (e, p) \<Rightarrow> Inl (e, w\<lparr>engine := p\<rparr>)
      | Inr p \<Rightarrow> Inr (w\<lparr>engine := p\<rparr>))"

subsection \<open>Statistics and reports\<close>

text \<open>\<open>self.currentStep * 100 / float(self.timeSteps)\<close> raises on a zero budget.\<close>

definition printStats :: "world \<Rightarrow> error \<times> world + world" where
  "printStats w =
     (if timeSteps (engine w) = 0 then Inl (ZeroDivisionError, w)
      else bind (call (PrintStep (currentStep (engine w))) w) (\<lambda>w.
           bind (topology_call TopologyStatistics w) (\<lambda>w.
           topology_call TopologyPrintStats w)))"

definition printTimeElapsed :: "world \<Rightarrow> error \<times> world + world" where
  "printTimeElapsed w =
     (case time_init (engine w) of
        None \<Rightarrow> Inl (TypeError ''unsupported operand type(s) for -'', w)
      | Some _ \<Rightarrow> call PrintTimeElapsed w)"

definition dumpStatsReport :: "world \<Rightarrow> error \<times> world + world" where
  "dumpStatsReport w =
     bind (topology_call TopologyStatistics w) (\<lambda>w.
       (case reportAdapter (engine w) of
          None \<Rightarrow> Inl (AttributeError, w)
        | Some _ \<Rightarrow>
            bind (topology_call TopologyGetStatistics w) (\<lambda>w.
            call (ReportInsert (currentStep (engine w))) w)))"

subsection \<open>One step\<close>

text \<open>The interrupt can arrive before each call, before the increment, and after it: the
  \<open>return\<close> and the test of the \<open>while\<close> still run inside the \<open>try\<close>.\<close>

definition constructSolution :: "world \<Rightarrow> error \<times> world + world \<times> bool" where
  "constructSolution w =
     bind (topology_call UpdateParticlesPosition w) (\<lambda>w.
     bind (topology_call UpdateParticlesInformation w) (\<lambda>w.
     bind (if topology (engine w) = Some LocalTopology then call StoreBestParticle w else Inr w) (\<lambda>w.
     bind (if psoType (engine w) = INERTIA
           then bind (call UpdateInertiaFactor w) (lift updateInertiaFactor)
           else Inr w) (\<lambda>w.
     bind (tick w) (\<lambda>w.
     bind (tick (w\<lparr>engine := (engine w)\<lparr>currentStep := currentStep (engine w) + 1\<rparr>\<rparr>)) (\<lambda>w.
       Inr (w, currentStep (engine w) = timeSteps (engine w))))))))"

definition initialize :: "world \<Rightarrow> error \<times> world + world" where
  "initialize w = bind (topology_call TopologyInitialize w) (call PrintInitialized)"

subsection \<open>The run\<close>

text \<open>Lines 269 to 299: the keyboard is polled on Windows and Linux; an ESC opens the
  interactive console. What the user does to the engine in that console is not modelled.\<close>

definition interact :: "env \<Rightarrow> world \<Rightarrow> error \<times> world + world" where
  "interact ev w =
     (if sys_platform ev = OtherPlatform then Inr w
      else bind (call KeyboardPoll w) (\<lambda>w.
             if escHit ev (currentStep (engine w)) then call InteractiveSession w else Inr w))"

text \<open>Lines 261 to 299, the body of the \<open>while\<close>. The report and the console are inside
  \<open>if freq_stats != 0\<close>.\<close>

definition loop_body :: "env \<Rightarrow> int \<Rightarrow> world \<Rightarrow> error \<times> world + world" where
  "loop_body ev freq_stats w =
     (if freq_stats \<noteq> 0 then
        bind (if currentStep (engine w) mod freq_stats = 0 \<or> currentStep (engine w) = 1
              then printStats w else Inr w) (\<lambda>w.
        bind (case reportAdapter (engine w) of
                None \<Rightarrow> Inr w
              | Some a \<Rightarrow>
                  if statsGenFreq a = 0 then Inl (ZeroDivisionError, w)
                  else if currentStep (engine w) mod statsGenFreq a = 0 then dumpStatsReport w
                  else Inr w) (\<lambda>w.
        if interactiveMode (engine w) then interact ev w else Inr w))
      else Inr w)"

text \<open>Lines 260 to 299: \<open>while not self.constructSolution(): ...\<close>. The loop has no bound of
  its own, so not returning is the value \<open>None\<close>.\<close>

partial_function (option) run_loop :: "env \<Rightarrow> int \<Rightarrow> world \<Rightarrow> (error \<times> world + world) option" where
  "run_loop ev freq_stats w =
     (case constructSolution w of
        Inl x \<Rightarrow> Some (Inl x)
      | Inr (w1, finished) \<Rightarrow>
          if finished then Some (Inr w1)
          else (case loop_body ev freq_stats w1 of
                  Inl x \<Rightarrow> Some (Inl x)
                | Inr w2 \<Rightarrow> run_loop ev freq_stats w2))"

text \<open>Lines 249 to 257, before the \<open>try\<close>.\<close>

definition startup :: "env \<Rightarrow> world \<Rightarrow> error \<times> world + world" where
  "startup ev w =
     bind (lift checkParametersSet w) (\<lambda>w.
     bind (Inr (w\<lparr>engine := (engine w)\<lparr>time_init := Some (now ev)\<rparr>\<rparr>)) (\<lambda>w.
     bind (case reportAdapter (engine w) of None \<Rightarrow> Inr w | Some _ \<Rightarrow> call ReportOpen w) (\<lambda>w.
     bind (initialize w) (call PrintStarting))))"

text \<open>Lines 304 to 311, after the \<open>try\<close>. \<open>saveAndClose\<close> is inside the test on the step.\<close>

definition final_output :: "int \<Rightarrow> world \<Rightarrow> error \<times> world + world" where
  "final_output freq_stats w =
     bind (if freq_stats \<noteq> 0 then bind (printStats w) printTimeElapsed else Inr w) (\<lambda>w.
       (case reportAdapter (engine w) of
          None \<Rightarrow> Inr w
        | Some a \<Rightarrow>
            if statsGenFreq a = 0 then Inl (ZeroDivisionError, w)
            else if currentStep (engine w) mod statsGenFreq a = 0
            then bind (dumpStatsReport w) (call ReportSaveAndClose)
            else Inr w))"

text \<open>\<open>except KeyboardInterrupt\<close> catches that exception alone, prints, and goes on to the
  final output; any other exception leaves \<open>execute\<close>.\<close>

definition execute :: "env \<Rightarrow> int \<Rightarrow> world \<Rightarrow> (error \<times> world + world) option" where
  "execute ev freq_stats w =
     (case startup ev w of
        Inl x \<Rightarrow> Some (Inl x)
      | Inr w1 \<Rightarrow>
          (case run_loop ev freq_stats w1 of
             None \<Rightarrow> None
           | Some (Inl (e, w2)) \<Rightarrow>
               if e = KeyboardInterrupt
               then Some (bind (call PrintBreak w2) (final_output freq_stats))
               else Some (Inl (e, w2))
           | Some (Inr w2) \<Rightarrow> Some (final_output freq_stats w2)))"

subsection \<open>The handle\<close>

text \<open>
  \<open>PSO._iInstance\<close> is a class attribute holding a reference; the objects live in \<open>heap\<close>, a
  reference is an index into it. \<open>PSO()\<close> creates the \<open>Singleton\<close> only when the class
  attribute is \<open>None\<close>, and stores the reference in the new handle.
\<close>

record process =
  iInstance :: "nat option"
  heap :: "pso list"

record handle =
  EventHandler_instance :: nat

definition PSO_init :: "Consts \<Rightarrow> process \<Rightarrow> handle \<times> process" where
  "PSO_init c pr =
     (let pr' = (case iInstance pr of
                   None \<Rightarrow> pr\<lparr>iInstance := Some (length (heap pr)),
                              heap := heap pr @ [Singleton_init c True]\<rparr>
                 | Some _ \<Rightarrow> pr)
      in (\<lparr>EventHandler_instance = the (iInstance pr')\<rparr>, pr'))"

text \<open>\<open>__getattr__\<close> and \<open>__setattr__\<close> go through \<open>self._iInstance\<close>, which is found on the
  class, not through the reference kept in the handle. An attribute is given by the function
  that reads it; an assignment, or a call of a method, by the update it makes.\<close>

definition PSO_getattr :: "handle \<Rightarrow> (pso \<Rightarrow> 'a) \<Rightarrow> process \<Rightarrow> error + 'a" where
  "PSO_getattr h aAttr pr =
     (case iInstance pr of
        None \<Rightarrow> Inl AttributeError
      | Some a \<Rightarrow> if a < length (heap pr) then Inr (aAttr (heap pr ! a)) else Inl AttributeError)"

definition PSO_setattr :: "handle \<Rightarrow> (pso \<Rightarrow> pso) \<Rightarrow> process \<Rightarrow> error + process" where
  "PSO_setattr h upd pr =
     (case iInstance pr of
        None \<Rightarrow> Inl AttributeError
      | Some a \<Rightarrow> if a < length (heap pr) then Inr (pr\<lparr>heap := (heap pr)[a := upd (heap pr ! a)]\<rparr>)
                  else Inl AttributeError)"

text \<open>Every reference in use points into the heap.\<close>

definition wf_process :: "process \<Rightarrow> bool" where
  "wf_process pr = (case iInstance pr of None \<Rightarrow> True | Some a \<Rightarrow> a < length (heap pr))"

subsection \<open>Example configurations\<close>

definition example_consts :: Consts where
  "example_consts = \<lparr> CDefPsoType = BASIC, CDefSteps = 100,
     CDefInertiaFactorStart = 9 / 10, CDefInertiaFactorEnd = 2 / 5 \<rparr>"

definition example_engine :: pso where
  "example_engine =
     \<lparr> psoType = BASIC, topology = Some GlobalTopology, timeSteps = 3,
       interactiveMode = False, currentStep = 0, function' = Some ''sphere'',
       inertiaFactorMinus = None, inertiaFactor = None, time_init = None,
       positionBounds = [PyTuple [- 10, 10]], initialPositionBounds = [PyTuple [- 10, 10]],
       velocityBounds = [PyFloat 2], reportAdapter = None \<rparr>"

definition local_inertia_engine :: pso where
  "local_inertia_engine =
     example_engine\<lparr> psoType := INERTIA, topology := Some LocalTopology,
       inertiaFactorMinus := Some (1 / 10), inertiaFactor := Some (9 / 10) \<rparr>"

definition example_env :: env where
  "example_env = \<lparr> sys_platform = Linux, now = 0, escHit = (\<lambda>_. False) \<rparr>"

definition start_world :: "pso \<Rightarrow> nat option \<Rightarrow> world" where
  "start_world p k = \<lparr> engine = p, trace = [], pending = k \<rparr>"

text \<open>The calls of a run that returned, without the step numbers.\<close>

definition calls_of :: "(error \<times> world + world) option \<Rightarrow> event list option" where
  "calls_of r = (case r of Some (Inr w) \<Rightarrow> Some (map snd (trace w)) | _ \<Rightarrow> None)"

definition fresh_process :: process where
  "fresh_process = \<lparr> iInstance = None, heap = [] \<rparr>"

definition report_engine :: "int \<Rightarrow> pso" where
  "report_engine f = example_engine\<lparr>reportAdapter := Some \<lparr>statsGenFreq = f\<rparr>\<rparr>"

definition increasing_inertia_engine :: pso where
  "increasing_inertia_engine = example_engine\<lparr>psoType := INERTIA, timeSteps := 2\<rparr>"

subsection \<open>What a run that is not interrupted does\<close>

text \<open>The calls of each part of \<open>execute\<close>, written out, and the conditions under which none
  of them raises. They are used to state and prove the properties below.\<close>

definition emits :: "event list \<Rightarrow> world \<Rightarrow> world" where
  "emits evs w = w\<lparr>trace := trace w @ map (Pair (currentStep (engine w))) evs\<rparr>"

definition step_calls :: "pso \<Rightarrow> event list" where
  "step_calls p =
     [UpdateParticlesPosition, UpdateParticlesInformation]
     @ (if topology p = Some LocalTopology then [StoreBestParticle] else [])
     @ (if psoType p = INERTIA then [UpdateInertiaFactor] else [])"

definition after_step :: "pso \<Rightarrow> pso" where
  "after_step p =
     p\<lparr> currentStep := currentStep p + 1,
        inertiaFactor := (if psoType p = INERTIA
                          then Some (the (inertiaFactor p) - the (inertiaFactorMinus p))
                          else inertiaFactor p) \<rparr>"

definition stats_calls :: "pso \<Rightarrow> event list" where
  "stats_calls p = [PrintStep (currentStep p), TopologyStatistics, TopologyPrintStats]"

definition dump_calls :: "pso \<Rightarrow> event list" where
  "dump_calls p = [TopologyStatistics, TopologyGetStatistics, ReportInsert (currentStep p)]"

definition body_calls :: "env \<Rightarrow> int \<Rightarrow> pso \<Rightarrow> event list" where
  "body_calls ev freq_stats p =
     (if freq_stats \<noteq> 0 then
        (if currentStep p mod freq_stats = 0 \<or> currentStep p = 1 then stats_calls p else [])
        @ (case reportAdapter p of
             None \<Rightarrow> []
           | Some a \<Rightarrow> if currentStep p mod statsGenFreq a = 0 then dump_calls p else [])
        @ (if interactiveMode p \<and> sys_platform ev \<noteq> OtherPlatform
           then KeyboardPoll # (if escHit ev (currentStep p) then [InteractiveSession] else [])
           else [])
      else [])"

definition final_calls :: "int \<Rightarrow> pso \<Rightarrow> event list" where
  "final_calls freq_stats p =
     (if freq_stats \<noteq> 0 then stats_calls p @ [PrintTimeElapsed] else [])
     @ (case reportAdapter p of
          None \<Rightarrow> []
        | Some a \<Rightarrow> if currentStep p mod statsGenFreq a = 0
                    then dump_calls p @ [ReportSaveAndClose] else [])"

definition startup_calls :: "pso \<Rightarrow> event list" where
  "startup_calls p =
     (case reportAdapter p of None \<Rightarrow> [] | Some _ \<Rightarrow> [ReportOpen])
     @ [TopologyInitialize, PrintInitialized, PrintStarting]"

text \<open>The calls of the loop, with their step numbers, from an engine \<open>p\<close> that has \<open>n\<close> steps
  to go: the calls of the step, then, unless it was the last, those of the body of the loop
  at the new step number.\<close>

primrec loop_trace :: "env \<Rightarrow> int \<Rightarrow> pso \<Rightarrow> nat \<Rightarrow> (int \<times> event) list" where
  "loop_trace ev freq_stats p 0 = []"
| "loop_trace ev freq_stats p (Suc n) =
     map (Pair (currentStep p)) (step_calls p)
     @ (if n = 0 then []
        else map (Pair (currentStep (after_step p))) (body_calls ev freq_stats (after_step p)))
     @ loop_trace ev freq_stats (after_step p) n"

text \<open>The calls made to the report adapter.\<close>

definition report_call :: "event \<Rightarrow> bool" where
  "report_call e =
     (case e of ReportOpen \<Rightarrow> True | ReportInsert _ \<Rightarrow> True | ReportSaveAndClose \<Rightarrow> True
      | _ \<Rightarrow> False)"

text \<open>The report adapter, when there is one, has a frequency that \<open>%\<close> accepts.\<close>

definition adapter_ok :: "pso \<Rightarrow> bool" where
  "adapter_ok p = (case reportAdapter p of None \<Rightarrow> True | Some a \<Rightarrow> statsGenFreq a \<noteq> 0)"

text \<open>What the statistics and the report need, and what a step needs on top of that.\<close>

definition reportable :: "pso \<Rightarrow> bool" where
  "reportable p \<longleftrightarrow> topology p \<noteq> None \<and> timeSteps p \<noteq> 0 \<and> adapter_ok p"

definition runnable :: "pso \<Rightarrow> bool" where
  "runnable p \<longleftrightarrow>
     reportable p
     \<and> (psoType p = INERTIA \<longrightarrow> inertiaFactor p \<noteq> None \<and> inertiaFactorMinus p \<noteq> None)"

text \<open>Two engines that differ at most in the step counter and the inertia factor, the two
  attributes a run assigns after its start.\<close>

definition same_setup :: "pso \<Rightarrow> pso \<Rightarrow> bool" where
  "same_setup p q \<longleftrightarrow>
     psoType q = psoType p \<and> topology q = topology p \<and> timeSteps q = timeSteps p
     \<and> interactiveMode q = interactiveMode p \<and> function' q = function' p
     \<and> inertiaFactorMinus q = inertiaFactorMinus p \<and> time_init q = time_init p
     \<and> positionBounds q = positionBounds p
     \<and> initialPositionBounds q = initialPositionBounds p
     \<and> velocityBounds q = velocityBounds p \<and> reportAdapter q = reportAdapter p"

text \<open>What a part of a run guarantees whether it returns or raises: a relation between the
  engine before and after, and that a KeyboardInterrupt leaves no interrupt pending.\<close>

definition post :: "(pso \<Rightarrow> pso \<Rightarrow> bool) \<Rightarrow> world \<Rightarrow> error \<times> world + world \<Rightarrow> bool" where
  "post R w r =
     (case r of
        Inl (e, w') \<Rightarrow> R (engine w) (engine w') \<and> (e = KeyboardInterrupt \<longrightarrow> pending w' = None)
      | Inr w' \<Rightarrow> R (engine w) (engine w'))"

definition only_inertia :: "pso \<Rightarrow> pso \<Rightarrow> bool" where
  "only_inertia p q \<longleftrightarrow> same_setup p q \<and> currentStep q = currentStep p"

text \<open>The statements of \<open>constructSolution\<close> before the increment.\<close>

definition step_prefix :: "world \<Rightarrow> error \<times> world + world" where
  "step_prefix w =
     bind (topology_call UpdateParticlesPosition w) (\<lambda>w.
     bind (topology_call UpdateParticlesInformation w) (\<lambda>w.
     bind (if topology (engine w) = Some LocalTopology then call StoreBestParticle w else Inr w) (\<lambda>w.
     bind (if psoType (engine w) = INERTIA
           then bind (call UpdateInertiaFactor w) (lift updateInertiaFactor)
           else Inr w) tick)))"

section \<open>Properties\<close>

subsection \<open>Basic facts\<close>

lemma bind_Inl [simp]: "bind (Inl e) f = Inl e"
  by (simp add: bind_def)

lemma bind_Inr [simp]: "bind (Inr x) f = f x"
  by (simp add: bind_def)

lemma engine_emit [simp]: "engine (emit ev w) = engine w"
  by (simp add: emit_def)

lemma pending_emit [simp]: "pending (emit ev w) = pending w"
  by (simp add: emit_def)

lemma trace_emit [simp]: "trace (emit ev w) = trace w @ [(currentStep (engine w), ev)]"
  by (simp add: emit_def)

lemma tick_quiet [simp]: "pending w = None \<Longrightarrow> tick w = Inr w"
  by (simp add: tick_def)

lemma call_quiet [simp]: "pending w = None \<Longrightarrow> call ev w = Inr (emit ev w)"
  by (simp add: call_def)

lemma topology_call_quiet [simp]:
  "pending w = None \<Longrightarrow> topology (engine w) = Some k \<Longrightarrow> topology_call ev w = Inr (emit ev w)"
  by (simp add: topology_call_def)

lemma not_falsy: "\<not> falsy x \<longleftrightarrow> (\<exists>v. x = Some v \<and> v \<noteq> 0)"
  by (cases x) (simp_all add: falsy_def)

lemma checkParametersSet_Inr:
  "checkParametersSet p = Inr q \<longleftrightarrow>
     q = p \<and> topology p \<noteq> None \<and> function' p \<noteq> None
     \<and> (psoType p = INERTIA \<longrightarrow> \<not> falsy (inertiaFactorMinus p) \<and> \<not> falsy (inertiaFactor p))
     \<and> initialPositionBounds p \<noteq> [] \<and> velocityBounds p \<noteq> [] \<and> positionBounds p \<noteq> []"
  by (auto simp: checkParametersSet_def raiseException_def)

lemma checkParametersSet_raises_iff:
  "(\<exists>e. checkParametersSet p = Inl (e, p)) \<longleftrightarrow>
     topology p = None \<or> function' p = None
     \<or> (psoType p = INERTIA \<and> (falsy (inertiaFactorMinus p) \<or> falsy (inertiaFactor p)))
     \<or> initialPositionBounds p = [] \<or> velocityBounds p = [] \<or> positionBounds p = []"
  by (auto simp: checkParametersSet_def raiseException_def)

subsection \<open>Runs without an interrupt\<close>

lemma emits_simps [simp]:
  "engine (emits evs w) = engine w" "pending (emits evs w) = pending w"
  "trace (emits evs w) = trace w @ map (Pair (currentStep (engine w))) evs"
  by (simp_all add: emits_def)

lemma constructSolution_quiet:
  assumes "pending w = None" and "runnable (engine w)"
  shows "constructSolution w
     = Inr ((emits (step_calls (engine w)) w)\<lparr>engine := after_step (engine w)\<rparr>,
            currentStep (engine w) + 1 = timeSteps (engine w))"
proof -
  from assms(2) obtain k where k: "topology (engine w) = Some k"
    by (auto simp: runnable_def reportable_def)
  show ?thesis
  proof (cases "psoType (engine w) = INERTIA")
    case True
    with assms(2) obtain f m
      where fm: "inertiaFactor (engine w) = Some f" "inertiaFactorMinus (engine w) = Some m"
      by (auto simp: runnable_def reportable_def)
    show ?thesis using True fm k assms(1)
      by (simp add: constructSolution_def lift_def updateInertiaFactor_def Let_def
          emits_def emit_def step_calls_def after_step_def)
  next
    case False
    then show ?thesis using k assms(1)
      by (simp add: constructSolution_def Let_def emits_def emit_def step_calls_def after_step_def)
  qed
qed

lemma printStats_quiet:
  assumes "pending w = None" and "reportable (engine w)"
  shows "printStats w = Inr (emits (stats_calls (engine w)) w)"
proof -
  from assms(2) obtain k where k: "topology (engine w) = Some k"
    by (auto simp: reportable_def)
  have "timeSteps (engine w) \<noteq> 0" using assms(2) by (simp add: reportable_def)
  then show ?thesis using k assms(1)
    by (simp add: printStats_def emits_def emit_def stats_calls_def)
qed

lemma dumpStatsReport_quiet:
  assumes "pending w = None" and "reportable (engine w)" and "reportAdapter (engine w) = Some a"
  shows "dumpStatsReport w = Inr (emits (dump_calls (engine w)) w)"
proof -
  from assms(2) obtain k where k: "topology (engine w) = Some k"
    by (auto simp: reportable_def)
  then show ?thesis using assms(1,3)
    by (simp add: dumpStatsReport_def emits_def emit_def dump_calls_def)
qed

lemma emits_emits: "emits bs (emits as w) = emits (as @ bs) w"
  by (simp add: emits_def)

lemma emits_Nil [simp]: "emits [] w = w"
  by (simp add: emits_def)

lemma interact_quiet:
  assumes "pending w = None"
  shows "(if interactiveMode (engine w) then interact ev w else Inr w)
     = Inr (emits (if interactiveMode (engine w) \<and> sys_platform ev \<noteq> OtherPlatform
           then KeyboardPoll # (if escHit ev (currentStep (engine w)) then [InteractiveSession] else [])
           else []) w)"
  using assms by (simp add: interact_def emits_def emit_def)

lemma loop_body_quiet:
  assumes "pending w = None" and "reportable (engine w)"
  shows "loop_body ev fs w = Inr (emits (body_calls ev fs (engine w)) w)"
proof (cases "fs = 0")
  case True
  then show ?thesis by (simp add: loop_body_def body_calls_def)
next
  case False
  let ?c = "currentStep (engine w)"
  let ?A = "if ?c mod fs = 0 \<or> ?c = 1 then stats_calls (engine w) else []"
  let ?B = "case reportAdapter (engine w) of None \<Rightarrow> []
           | Some a \<Rightarrow> if ?c mod statsGenFreq a = 0 then dump_calls (engine w) else []"
  have 1: "(if ?c mod fs = 0 \<or> ?c = 1 then printStats w else Inr w) = Inr (emits ?A w)"
    using assms by (simp add: printStats_quiet)
  have r: "pending (emits ?A w) = None" "reportable (engine (emits ?A w))"
    using assms by simp_all
  have 2: "(case reportAdapter (engine (emits ?A w)) of None \<Rightarrow> Inr (emits ?A w)
            | Some a \<Rightarrow> if statsGenFreq a = 0 then Inl (ZeroDivisionError, emits ?A w)
                else if currentStep (engine (emits ?A w)) mod statsGenFreq a = 0
                then dumpStatsReport (emits ?A w) else Inr (emits ?A w))
          = Inr (emits ?B (emits ?A w))"
  proof (cases "reportAdapter (engine w)")
    case None
    then show ?thesis by simp
  next
    case (Some a)
    then have "statsGenFreq a \<noteq> 0" using assms(2) by (simp add: reportable_def adapter_ok_def)
    then show ?thesis using Some dumpStatsReport_quiet [OF r, of a]
      by simp
  qed
  have p3: "pending (emits ?B (emits ?A w)) = None" using assms(1) by simp
  show ?thesis
    unfolding loop_body_def using False
    by (simp only: if_True 1 bind_Inr 2 interact_quiet [OF p3])
       (simp add: emits_emits body_calls_def)
qed

lemma final_output_quiet:
  assumes "pending w = None" and "reportable (engine w)" and "time_init (engine w) \<noteq> None"
  shows "final_output fs w = Inr (emits (final_calls fs (engine w)) w)"
proof -
  let ?A = "if fs \<noteq> 0 then stats_calls (engine w) @ [PrintTimeElapsed] else []"
  have 1: "(if fs \<noteq> 0 then bind (printStats w) printTimeElapsed else Inr w) = Inr (emits ?A w)"
    using assms by (auto simp: printStats_quiet printTimeElapsed_def emits_def emit_def)
  have r: "pending (emits ?A w) = None" "reportable (engine (emits ?A w))"
    using assms by simp_all
  show ?thesis
  proof (cases "reportAdapter (engine w)")
    case None
    then show ?thesis unfolding final_output_def 1 by (simp add: final_calls_def)
  next
    case (Some a)
    then have "statsGenFreq a \<noteq> 0" using assms(2) by (simp add: reportable_def adapter_ok_def)
    then show ?thesis unfolding final_output_def 1 using Some dumpStatsReport_quiet [OF r, of a] assms(1)
      by (simp add: final_calls_def emits_emits)
  qed
qed

lemma startup_quiet:
  assumes "pending w = None" and "checkParametersSet (engine w) = Inr (engine w)"
  shows "startup ev w
     = Inr (emits (startup_calls (engine w)) (w\<lparr>engine := (engine w)\<lparr>time_init := Some (now ev)\<rparr>\<rparr>))"
proof -
  from assms(2) obtain k where k: "topology (engine w) = Some k"
    by (auto simp: checkParametersSet_Inr)
  show ?thesis using assms k
    by (cases "reportAdapter (engine w)")
       (simp_all add: startup_def lift_def initialize_def startup_calls_def emits_def emit_def)
qed

lemma same_setup_refl [simp]: "same_setup p p"
  by (simp add: same_setup_def)

lemma same_setup_trans: "same_setup p q \<Longrightarrow> same_setup q r \<Longrightarrow> same_setup p r"
  by (simp add: same_setup_def)

lemma same_setup_after_step [simp]: "same_setup p (after_step p)"
  by (simp add: same_setup_def after_step_def)

lemma same_setup_eq:
  "same_setup p q \<Longrightarrow> currentStep q = currentStep p \<Longrightarrow> inertiaFactor q = inertiaFactor p \<Longrightarrow> q = p"
  by (simp add: same_setup_def)

lemma runnable_same_setup:
  "runnable p \<Longrightarrow> same_setup p q \<Longrightarrow> (psoType p = INERTIA \<longrightarrow> inertiaFactor q \<noteq> None) \<Longrightarrow> runnable q"
  by (simp add: runnable_def reportable_def same_setup_def adapter_ok_def)

lemma reportable_same_setup: "reportable p \<Longrightarrow> same_setup p q \<Longrightarrow> reportable q"
  by (simp add: reportable_def same_setup_def adapter_ok_def)

lemma runnable_after_step [simp]: "runnable p \<Longrightarrow> runnable (after_step p)"
  by (rule runnable_same_setup [of p]) (simp_all add: after_step_def same_setup_def)



lemma count_step_calls [simp]: "count_list (step_calls p) UpdateParticlesPosition = 1"
  by (simp add: step_calls_def)

lemma count_body_calls [simp]: "count_list (body_calls ev fs p) UpdateParticlesPosition = 0"
  by (simp add: body_calls_def stats_calls_def dump_calls_def split: option.splits)

lemma count_list_append [simp]: "count_list (xs @ ys) x = count_list xs x + count_list ys x"
  by (induction xs) simp_all

lemma map_snd_stamp [simp]: "map (snd \<circ> Pair c) evs = evs"
  by (induction evs) simp_all

lemma run_loop_quiet:
  assumes "pending w = None" and "runnable (engine w)"
    and "currentStep (engine w) < timeSteps (engine w)"
    and "n = nat (timeSteps (engine w) - currentStep (engine w))"
  shows "\<exists>w'. run_loop ev fs w = Some (Inr w')
     \<and> pending w' = None \<and> runnable (engine w') \<and> same_setup (engine w) (engine w')
     \<and> currentStep (engine w') = timeSteps (engine w)
     \<and> inertiaFactor (engine w')
         = (if psoType (engine w) = INERTIA
            then Some (the (inertiaFactor (engine w)) - real n * the (inertiaFactorMinus (engine w)))
            else inertiaFactor (engine w))
     \<and> count_list (map snd (trace w')) UpdateParticlesPosition
         = count_list (map snd (trace w)) UpdateParticlesPosition + n
     \<and> trace w' = trace w @ loop_trace ev fs (engine w) n"
  using assms
proof (induction n arbitrary: w)
  case 0
  then show ?case by simp
next
  case (Suc n)
  let ?w1 = "(emits (step_calls (engine w)) w)\<lparr>engine := after_step (engine w)\<rparr>"
  have cs: "constructSolution w = Inr (?w1, currentStep (engine w) + 1 = timeSteps (engine w))"
    using Suc.prems by (simp add: constructSolution_quiet)
  have w1: "pending ?w1 = None" "runnable (engine ?w1)"
    using Suc.prems by simp_all
  have step: "currentStep (engine ?w1) = currentStep (engine w) + 1"
    "timeSteps (engine ?w1) = timeSteps (engine w)" "psoType (engine ?w1) = psoType (engine w)"
    "inertiaFactorMinus (engine ?w1) = inertiaFactorMinus (engine w)"
    by (simp_all add: after_step_def)
  have tr1: "trace ?w1 = trace w @ map (Pair (currentStep (engine w))) (step_calls (engine w))"
    by simp
  show ?case
  proof (cases "currentStep (engine w) + 1 = timeSteps (engine w)")
    case True
    then have n: "n = 0" using Suc.prems(4) by simp
    have "run_loop ev fs w = Some (Inr ?w1)"
      by (subst run_loop.simps) (simp add: cs True)
    moreover have "inertiaFactor (engine ?w1)
         = (if psoType (engine w) = INERTIA
            then Some (the (inertiaFactor (engine w)) - real (Suc n) * the (inertiaFactorMinus (engine w)))
            else inertiaFactor (engine w))"
      using n by (simp add: after_step_def)
    ultimately show ?thesis using w1 step True n tr1
      by simp
  next
    case False
    let ?w2 = "emits (body_calls ev fs (engine ?w1)) ?w1"
    have lb: "loop_body ev fs ?w1 = Inr ?w2"
      using w1 by (simp add: loop_body_quiet runnable_def)
    have rl: "run_loop ev fs w = run_loop ev fs ?w2"
      by (subst run_loop.simps) (simp add: cs False lb)
    have e2: "engine ?w2 = after_step (engine w)" by simp
    have p2: "pending ?w2 = None" "runnable (engine ?w2)" using w1 by simp_all
    have lt: "currentStep (engine ?w2) < timeSteps (engine ?w2)"
      using False Suc.prems(3) by (simp add: after_step_def)
    have n2: "n = nat (timeSteps (engine ?w2) - currentStep (engine ?w2))"
      using Suc.prems(4) by (simp add: after_step_def)
    from Suc.IH [OF p2 lt n2] obtain w' where w':
      "run_loop ev fs ?w2 = Some (Inr w')" "pending w' = None" "runnable (engine w')"
      "same_setup (engine ?w2) (engine w')" "currentStep (engine w') = timeSteps (engine ?w2)"
      "inertiaFactor (engine w')
         = (if psoType (engine ?w2) = INERTIA
            then Some (the (inertiaFactor (engine ?w2)) - real n * the (inertiaFactorMinus (engine ?w2)))
            else inertiaFactor (engine ?w2))"
      "count_list (map snd (trace w')) UpdateParticlesPosition
         = count_list (map snd (trace ?w2)) UpdateParticlesPosition + n"
      "trace w' = trace ?w2 @ loop_trace ev fs (engine ?w2) n"
      by blast
    have a: "same_setup (engine w) (engine w')"
      using w'(4) by (auto intro: same_setup_trans [of _ "after_step (engine w)"])
    have b: "inertiaFactor (engine w')
         = (if psoType (engine w) = INERTIA
            then Some (the (inertiaFactor (engine w)) - real (Suc n) * the (inertiaFactorMinus (engine w)))
            else inertiaFactor (engine w))"
      using w'(6) by (simp add: after_step_def algebra_simps)
    have c: "count_list (map snd (trace w')) UpdateParticlesPosition
         = count_list (map snd (trace w)) UpdateParticlesPosition + Suc n"
      using w'(7) by simp
    have n0: "n \<noteq> 0" using lt n2 by simp
    have d: "trace w' = trace w @ loop_trace ev fs (engine w) (Suc n)"
      using w'(8) n0 by simp
    have e: "currentStep (engine w') = timeSteps (engine w)"
      using w'(5) by (simp add: after_step_def)
    show ?thesis
      using rl w'(1,2,3) a b c d e by simp
  qed
qed

subsection \<open>Runs with an interrupt\<close>

lemma post_Inr [simp]: "post R w (Inr w') = R (engine w) (engine w')"
  by (simp add: post_def)

lemma post_Inl [simp]:
  "post R w (Inl (e, w')) = (R (engine w) (engine w') \<and> (e = KeyboardInterrupt \<longrightarrow> pending w' = None))"
  by (simp add: post_def)

lemma post_bind:
  assumes "post R1 w r"
    and "\<And>w'. R1 (engine w) (engine w') \<Longrightarrow> post R2 w' (f w')"
    and "\<And>p q. R1 p q \<Longrightarrow> R p q"
    and "\<And>p q s. R1 p q \<Longrightarrow> R2 q s \<Longrightarrow> R p s"
  shows "post R w (bind r f)"
proof (cases r)
  case (Inl x)
  then show ?thesis using assms(1,3) by (cases x) auto
next
  case (Inr w')
  then have r1: "R1 (engine w) (engine w')" using assms(1) by simp
  from assms(2) [OF r1] show ?thesis using Inr r1 assms(4)
    by (cases "f w'") (auto simp: post_def)
qed

lemma post_bind_eq:
  assumes "post (=) w r" and "\<And>w'. engine w' = engine w \<Longrightarrow> post (=) w' (f w')"
  shows "post (=) w (bind r f)"
  using assms by (intro post_bind [where ?R1.0 = "(=)" and ?R2.0 = "(=)"]) auto

lemma post_tick: "post (=) w (tick w)"
  by (auto simp: tick_def split: option.splits nat.splits)

lemma post_call: "post (=) w (call ev w)"
  unfolding call_def by (intro post_bind_eq post_tick) simp

lemma post_topology_call: "post (=) w (topology_call ev w)"
  by (simp add: topology_call_def post_call split: option.splits)


lemma post_printTimeElapsed: "post (=) w (printTimeElapsed w)"
  by (simp add: printTimeElapsed_def post_call split: option.splits)





lemma post_mono: "post R w r \<Longrightarrow> (\<And>p q. R p q \<Longrightarrow> S p q) \<Longrightarrow> post S w r"
  by (auto simp: post_def split: sum.splits)

lemma only_inertia_refl [simp]: "only_inertia p p"
  by (simp add: only_inertia_def same_setup_def)

lemma only_inertia_trans: "only_inertia p q \<Longrightarrow> only_inertia q r \<Longrightarrow> only_inertia p r"
  by (simp add: only_inertia_def same_setup_def)

lemma post_updateInertiaFactor: "post only_inertia w (lift updateInertiaFactor w)"
  by (auto simp: lift_def updateInertiaFactor_def only_inertia_def same_setup_def
      split: option.splits)

lemma constructSolution_prefix:
  "constructSolution w =
     (case step_prefix w of
        Inl x \<Rightarrow> Inl x
      | Inr w1 \<Rightarrow>
          (case tick (w1\<lparr>engine := (engine w1)\<lparr>currentStep := currentStep (engine w1) + 1\<rparr>\<rparr>) of
             Inl x \<Rightarrow> Inl x
           | Inr w2 \<Rightarrow> Inr (w2, currentStep (engine w2) = timeSteps (engine w2))))"
  by (simp add: constructSolution_def step_prefix_def bind_def split: sum.splits)

lemma post_step_prefix: "post only_inertia w (step_prefix w)"
  unfolding step_prefix_def
  apply (rule post_bind [where ?R1.0 = "(=)" and ?R2.0 = only_inertia, OF post_topology_call])
    apply (rule post_bind [where ?R1.0 = "(=)" and ?R2.0 = only_inertia, OF post_topology_call])
      apply (rule post_bind [where ?R1.0 = "(=)" and ?R2.0 = only_inertia])
         apply (simp add: post_call)
        apply (rule post_bind [where ?R1.0 = only_inertia and ?R2.0 = "(=)"])
           apply (auto intro!: post_bind [where ?R1.0 = "(=)" and ?R2.0 = only_inertia and R = only_inertia]
                   post_call post_updateInertiaFactor post_tick
                   intro: only_inertia_trans)
  done

lemma constructSolution_Inr:
  assumes "constructSolution w = Inr (w', b)"
  shows "same_setup (engine w) (engine w') \<and> currentStep (engine w') = currentStep (engine w) + 1
     \<and> b = (currentStep (engine w') = timeSteps (engine w'))"
  using assms post_step_prefix [of w]
  by (auto simp: constructSolution_prefix only_inertia_def same_setup_def tick_def
      split: sum.splits option.splits nat.splits)




subsection \<open>The parameter check\<close>

text \<open>
  Claim C1: \<open>checkParametersSet\<close> raises exactly when the topology or the fitness function is
  unset, or the variant is INERTIA and the inertia schedule is not set, or a bound sequence
  is empty. The code tests the two inertia attributes with \<open>not\<close>, which is also true of a
  zero: here the schedule has been set, with equal start and end factors, so that
  \<open>inertiaFactorMinus\<close> is \<open>0.0\<close>, every other parameter is set, and the check still raises,
  asking for \<open>setInitialInertiaFactor\<close> to be called.
\<close>

theorem checkParametersSet_constant_inertia:
  "bind (setInitialInertiaFactor (9 / 10) (9 / 10) (example_engine\<lparr>psoType := INERTIA\<rparr>))
        checkParametersSet
     = Inl (TypeError ''Set the setInitialInertiaFactor() for the Inertia weight.'',
            example_engine\<lparr>psoType := INERTIA, inertiaFactorMinus := Some 0,
                            inertiaFactor := Some (9 / 10)\<rparr>)"
  by (simp add: setInitialInertiaFactor_def checkParametersSet_def raiseException_def
      example_engine_def falsy_def)

subsection \<open>One step\<close>

text \<open>
  Claim C3: in a configured engine, and when no interrupt arrives, a call of
  \<open>constructSolution\<close> calls \<open>updateParticlesPosition\<close>, then \<open>updateParticlesInformation\<close>, then
  \<open>storeBestParticle\<close> exactly when the topology is a \<open>LocalTopology\<close>, then
  \<open>updateInertiaFactor\<close> exactly when the variant is INERTIA; all of these see the old value
  of \<open>currentStep\<close>, which is incremented by one last. The value returned says whether the new
  \<open>currentStep\<close> equals \<open>timeSteps\<close>.
\<close>

theorem constructSolution_order:
  assumes "checkParametersSet (engine w) = Inr (engine w)" and "pending w = None"
  shows "\<exists>w'. constructSolution w = Inr (w', currentStep (engine w) + 1 = timeSteps (engine w))
     \<and> trace w' = trace w @ map (Pair (currentStep (engine w)))
          ([UpdateParticlesPosition, UpdateParticlesInformation]
           @ (if topology (engine w) = Some LocalTopology then [StoreBestParticle] else [])
           @ (if psoType (engine w) = INERTIA then [UpdateInertiaFactor] else []))
     \<and> engine w' = (engine w)\<lparr>currentStep := currentStep (engine w) + 1,
          inertiaFactor := (if psoType (engine w) = INERTIA
             then Some (the (inertiaFactor (engine w)) - the (inertiaFactorMinus (engine w)))
             else inertiaFactor (engine w))\<rparr>
     \<and> pending w' = None"
proof -
  from assms(1) obtain k where k: "topology (engine w) = Some k"
    by (auto simp: checkParametersSet_Inr)
  show ?thesis
  proof (cases "psoType (engine w) = INERTIA")
    case True
    with assms(1) obtain f m
      where fm: "inertiaFactor (engine w) = Some f" "inertiaFactorMinus (engine w) = Some m"
      by (auto simp: checkParametersSet_Inr not_falsy)
    show ?thesis using True fm k assms(2)
      by (simp add: constructSolution_def lift_def updateInertiaFactor_def Let_def)
  next
    case False
    then show ?thesis using k assms(2)
      by (simp add: constructSolution_def Let_def)
  qed
qed

theorem constructSolution_order_witness:
  "checkParametersSet local_inertia_engine = Inr local_inertia_engine
   \<and> pending (start_world local_inertia_engine None) = None
   \<and> (\<exists>w'. constructSolution (start_world local_inertia_engine None) = Inr (w', False)
        \<and> trace w' = [(0, UpdateParticlesPosition), (0, UpdateParticlesInformation),
                       (0, StoreBestParticle), (0, UpdateInertiaFactor)]
        \<and> currentStep (engine w') = 1
        \<and> inertiaFactor (engine w') = Some (4 / 5))"
proof -
  let ?w = "start_world local_inertia_engine None"
  have c: "checkParametersSet (engine ?w) = Inr (engine ?w)"
    by (simp add: checkParametersSet_def start_world_def local_inertia_engine_def
        example_engine_def falsy_def)
  have p: "pending ?w = None"
    by (simp add: start_world_def)
  from constructSolution_order [OF c p] obtain w' where
    "constructSolution ?w = Inr (w', currentStep (engine ?w) + 1 = timeSteps (engine ?w))"
    "trace w' = trace ?w @ map (Pair (currentStep (engine ?w)))
          ([UpdateParticlesPosition, UpdateParticlesInformation]
           @ (if topology (engine ?w) = Some LocalTopology then [StoreBestParticle] else [])
           @ (if psoType (engine ?w) = INERTIA then [UpdateInertiaFactor] else []))"
    "engine w' = (engine ?w)\<lparr>currentStep := currentStep (engine ?w) + 1,
          inertiaFactor := (if psoType (engine ?w) = INERTIA
             then Some (the (inertiaFactor (engine ?w)) - the (inertiaFactorMinus (engine ?w)))
             else inertiaFactor (engine ?w))\<rparr>"
    by blast
  then have "constructSolution ?w = Inr (w', False)
        \<and> trace w' = [(0, UpdateParticlesPosition), (0, UpdateParticlesInformation),
                       (0, StoreBestParticle), (0, UpdateInertiaFactor)]
        \<and> currentStep (engine w') = 1
        \<and> inertiaFactor (engine w') = Some (4 / 5)"
    by (simp add: start_world_def local_inertia_engine_def example_engine_def)
  with c p show ?thesis
    by (auto simp: start_world_def)
qed

subsection \<open>Inertia schedule\<close>

text \<open>
  Claim C5, as stated: \<open>setInitialInertiaFactor\<close> raises when the variant is not INERTIA. It
  does not: for the BASIC variant it returns, and has changed nothing.
\<close>

theorem setInitialInertiaFactor_basic_counterexample:
  "setInitialInertiaFactor (9 / 10) (2 / 5) example_engine = Inr example_engine"
  by (simp add: setInitialInertiaFactor_def example_engine_def)

text \<open>
  Claim C5, amended: for a variant other than INERTIA \<open>setInitialInertiaFactor\<close> returns
  normally and leaves the engine as it was; \<open>updateInertiaFactor\<close> raises a TypeError (that of
  the subtraction on \<open>None\<close>), leaving the engine as it was, when \<open>inertiaFactor\<close> or
  \<open>inertiaFactorMinus\<close> is \<open>None\<close>, and otherwise subtracts, whatever the variant.
\<close>

theorem inertia_operations_failures:
  "(psoType p \<noteq> INERTIA \<longrightarrow> setInitialInertiaFactor s e p = Inr p)
   \<and> (inertiaFactor p = None \<or> inertiaFactorMinus p = None
        \<longrightarrow> updateInertiaFactor p = Inl (TypeError ''unsupported operand type(s) for -'', p))
   \<and> (inertiaFactor p \<noteq> None \<and> inertiaFactorMinus p \<noteq> None
        \<longrightarrow> updateInertiaFactor p
            = Inr (p\<lparr>inertiaFactor := Some (the (inertiaFactor p) - the (inertiaFactorMinus p))\<rparr>))"
  by (auto simp: setInitialInertiaFactor_def updateInertiaFactor_def split: option.splits)

theorem inertia_operations_failures_witness:
  "psoType example_engine \<noteq> INERTIA
   \<and> setInitialInertiaFactor (9 / 10) (2 / 5) example_engine = Inr example_engine
   \<and> inertiaFactor example_engine = None
   \<and> updateInertiaFactor example_engine
       = Inl (TypeError ''unsupported operand type(s) for -'', example_engine)
   \<and> updateInertiaFactor (example_engine\<lparr>inertiaFactor := Some 1, inertiaFactorMinus := Some (1 / 4)\<rparr>)
       = Inr (example_engine\<lparr>inertiaFactor := Some (3 / 4), inertiaFactorMinus := Some (1 / 4)\<rparr>)"
proof -
  let ?q = "example_engine\<lparr>inertiaFactor := Some 1, inertiaFactorMinus := Some (1 / 4)\<rparr>"
  have a: "psoType example_engine \<noteq> INERTIA" "inertiaFactor example_engine = None"
    by (simp_all add: example_engine_def)
  have b: "inertiaFactor ?q = Some 1 \<and> inertiaFactorMinus ?q = Some (1 / 4)"
    by simp
  show ?thesis
    using a b inertia_operations_failures [of example_engine "9 / 10" "2 / 5"]
      inertia_operations_failures [of ?q 0 0]
    by simp
qed

subsection \<open>Bounds\<close>

lemma setitem_in_range:
  "0 \<le> i \<Longrightarrow> i < int (length xs) \<Longrightarrow> setitem xs i v = Inr (xs[nat i := v])"
  by (simp add: setitem_def Let_def)

lemma assign_range_in_range:
  "\<forall>i\<in>set is. 0 \<le> i \<and> i < int (length xs) \<Longrightarrow>
   assign_range xs is v = Inr (map (\<lambda>j. if int j \<in> set is then v else xs ! j) [0..<length xs])"
proof (induction "is" arbitrary: xs)
  case Nil
  then show ?case by (simp add: map_nth)
next
  case (Cons i "is")
  have i: "0 \<le> i" "i < int (length xs)" using Cons.prems by simp_all
  have "assign_range (xs[nat i := v]) is v
      = Inr (map (\<lambda>j. if int j \<in> set is then v else xs[nat i := v] ! j) [0..<length (xs[nat i := v])])"
    using Cons.prems by (intro Cons.IH) simp
  moreover have "map (\<lambda>j. if int j \<in> set is then v else xs[nat i := v] ! j) [0..<length xs]
      = map (\<lambda>j. if int j \<in> set (i # is) then v else xs ! j) [0..<length xs]"
    using i by (auto simp: nth_list_update)
  ultimately show ?case using i
    by (simp add: setitem_in_range)
qed

lemma assign_range_upto:
  assumes "0 \<le> firstDim" "lastDim \<le> int (length xs)"
  shows "assign_range xs [firstDim..lastDim - 1] v
     = Inr (map (\<lambda>j. if firstDim \<le> int j \<and> int j < lastDim then v else xs ! j) [0..<length xs])"
proof -
  have "assign_range xs [firstDim..lastDim - 1] v
     = Inr (map (\<lambda>j. if int j \<in> set [firstDim..lastDim - 1] then v else xs ! j) [0..<length xs])"
    using assms by (intro assign_range_in_range) auto
  also have "(\<lambda>j. if int j \<in> set [firstDim..lastDim - 1] then v else xs ! j)
     = (\<lambda>j. if firstDim \<le> int j \<and> int j < lastDim then v else xs ! j)"
    by auto
  finally show ?thesis .
qed

lemma assign_range_empty_list:
  "firstDim < lastDim \<Longrightarrow> assign_range [] [firstDim..lastDim - 1] v = Inl (IndexError, [])"
  by (subst upto_rec1) (simp_all add: setitem_def Let_def)

text \<open>
  Claim C6, as stated: the position-bound operations fail when the value is not a well-formed
  (min, max) tuple. The code tests the type alone: a tuple of three numbers, out of order, is
  stored as the bound.
\<close>

theorem define_bounds_counterexample:
  "definePositionBounds 0 1 (PyTuple [3, 1, 2]) example_engine
     = Inr (example_engine\<lparr>positionBounds := [PyTuple [3, 1, 2]]\<rparr>)"
  by (simp add: definePositionBounds_def is_tuple_def example_engine_def setitem_def Let_def)

text \<open>
  Claim C6, amended: for \<open>0 \<le> first < last\<close> within the length of the sequence, each of the
  three operations stores the value at every index of \<open>[first, last)\<close>, and leaves the other
  indices, the other sequences and the rest of the engine as they were. The two position
  operations raise the TypeError of the configuration when the value is not a tuple, and
  accept any tuple; the velocity operation accepts any value. When the sequence is empty,
  because \<open>initializeBounds\<close> was never called, the first assignment raises IndexError.
\<close>

theorem define_bounds_range:
  assumes "0 \<le> firstDim" and "firstDim < lastDim"
  shows "(lastDim \<le> int (length (positionBounds p)) \<longrightarrow>
            definePositionBounds firstDim lastDim (PyTuple t) p
              = Inr (p\<lparr>positionBounds := map (\<lambda>j. if firstDim \<le> int j \<and> int j < lastDim then PyTuple t
                                               else positionBounds p ! j) [0..<length (positionBounds p)]\<rparr>))
     \<and> (lastDim \<le> int (length (initialPositionBounds p)) \<longrightarrow>
            defineInitialPositionBounds firstDim lastDim (PyTuple t) p
              = Inr (p\<lparr>initialPositionBounds := map (\<lambda>j. if firstDim \<le> int j \<and> int j < lastDim then PyTuple t
                                               else initialPositionBounds p ! j) [0..<length (initialPositionBounds p)]\<rparr>))
     \<and> (lastDim \<le> int (length (velocityBounds p)) \<longrightarrow>
            defineVelocityBounds firstDim lastDim v p
              = Inr (p\<lparr>velocityBounds := map (\<lambda>j. if firstDim \<le> int j \<and> int j < lastDim then v
                                               else velocityBounds p ! j) [0..<length (velocityBounds p)]\<rparr>))
     \<and> (\<not> is_tuple v \<longrightarrow>
            definePositionBounds firstDim lastDim v p
              = Inl (TypeError ''minMaxValue type must be a tuple (a,b).'', p)
          \<and> defineInitialPositionBounds firstDim lastDim v p
              = Inl (TypeError ''minMaxValue type must be a tuple (a,b).'', p))
     \<and> (positionBounds p = [] \<longrightarrow> definePositionBounds firstDim lastDim (PyTuple t) p = Inl (IndexError, p))
     \<and> (initialPositionBounds p = [] \<longrightarrow>
            defineInitialPositionBounds firstDim lastDim (PyTuple t) p = Inl (IndexError, p))
     \<and> (velocityBounds p = [] \<longrightarrow> defineVelocityBounds firstDim lastDim v p = Inl (IndexError, p))"
  using assms
  by (simp add: definePositionBounds_def defineInitialPositionBounds_def defineVelocityBounds_def
      is_tuple_def raiseException_def assign_range_upto assign_range_empty_list)

theorem define_bounds_range_witness:
  "(0::int) \<le> 1 \<and> (1::int) < 3
   \<and> definePositionBounds 1 3 (PyTuple [- 5, 5]) (initializeBounds 4 (Singleton_init example_consts True))
       = Inr ((initializeBounds 4 (Singleton_init example_consts True))
               \<lparr>positionBounds := [PyTuple [0, 0], PyTuple [- 5, 5], PyTuple [- 5, 5], PyTuple [0, 0]]\<rparr>)
   \<and> definePositionBounds 1 3 (PyList [- 5, 5]) (Singleton_init example_consts True)
       = Inl (TypeError ''minMaxValue type must be a tuple (a,b).'', Singleton_init example_consts True)
   \<and> defineVelocityBounds 1 3 (PyFloat 2) (Singleton_init example_consts True)
       = Inl (IndexError, Singleton_init example_consts True)"
proof -
  let ?p = "initializeBounds 4 (Singleton_init example_consts True)"
  let ?q = "Singleton_init example_consts True"
  have h: "(0::int) \<le> 1" "(1::int) < 3" by simp_all
  have l: "3 \<le> int (length (positionBounds ?p))"
    by (simp add: initializeBounds_def Singleton_init_def)
  have m: "map (\<lambda>j. if 1 \<le> int j \<and> int j < 3 then PyTuple [- 5, 5] else positionBounds ?p ! j)
              [0..<length (positionBounds ?p)]
         = [PyTuple [0, 0], PyTuple [- 5, 5], PyTuple [- 5, 5], PyTuple [0, 0]]"
    by (simp add: initializeBounds_def Singleton_init_def upt_rec numeral_eq_Suc)
  have e: "velocityBounds ?q = []" "\<not> is_tuple (PyList [- 5, 5])"
    by (simp_all add: Singleton_init_def is_tuple_def)
  show ?thesis
    using h l m e define_bounds_range [OF h, of ?p "[- 5, 5]" "PyFloat 2"]
      define_bounds_range [OF h, of ?q "[]" "PyList [- 5, 5]"]
      define_bounds_range [OF h, of ?q "[]" "PyFloat 2"]
    by simp
qed

subsection \<open>The handle\<close>

lemma PSO_init_wf: "wf_process pr \<Longrightarrow> wf_process (snd (PSO_init c pr))"
  by (auto simp: PSO_init_def wf_process_def Let_def split: option.splits)

lemma PSO_init_set: "iInstance (snd (PSO_init c pr)) \<noteq> None"
  by (auto simp: PSO_init_def Let_def split: option.splits)

lemma PSO_init_again: "iInstance pr \<noteq> None \<Longrightarrow> snd (PSO_init c pr) = pr"
  by (auto simp: PSO_init_def Let_def split: option.splits)

text \<open>
  Claim C10: two constructions \<open>e1 = PSO()\<close> and \<open>e2 = PSO()\<close> in one process give handles on
  the same instance. The second construction changes nothing in the process; both handles
  read the same object; what is written through either is read through the other; and a
  later construction leaves what was written in place.
\<close>

theorem handles_share_instance:
  assumes "wf_process pr0"
    and "PSO_init c pr0 = (e1, pr1)"
    and "PSO_init c pr1 = (e2, pr2)"
  shows "pr2 = pr1 \<and> e2 = e1
     \<and> (\<exists>a. iInstance pr1 = Some a \<and> a < length (heap pr1)
           \<and> EventHandler_instance e1 = a \<and> EventHandler_instance e2 = a
           \<and> PSO_getattr e1 rd pr1 = Inr (rd (heap pr1 ! a))
           \<and> PSO_getattr e2 rd pr1 = Inr (rd (heap pr1 ! a))
           \<and> (\<exists>pr3. PSO_setattr e1 upd pr1 = Inr pr3
                 \<and> PSO_setattr e2 upd pr1 = Inr pr3
                 \<and> PSO_getattr e2 rd pr3 = Inr (rd (upd (heap pr1 ! a)))
                 \<and> PSO_getattr e1 rd pr3 = Inr (rd (upd (heap pr1 ! a)))
                 \<and> snd (PSO_init c pr3) = pr3))"
proof -
  have wf1: "wf_process pr1" and set1: "iInstance pr1 \<noteq> None"
    using PSO_init_wf [OF assms(1), of c] PSO_init_set [of c pr0] assms(2) by simp_all
  then obtain a where a: "iInstance pr1 = Some a" "a < length (heap pr1)"
    by (auto simp: wf_process_def)
  have pr2: "pr2 = pr1"
    using PSO_init_again [OF set1, of c] assms(3) by simp
  have e1: "EventHandler_instance e1 = a"
    using assms(2) a by (auto simp: PSO_init_def Let_def split: option.splits)
  have e2: "EventHandler_instance e2 = a"
    using assms(3) a by (auto simp: PSO_init_def Let_def split: option.splits)
  have "e2 = e1" using e1 e2 by simp
  moreover have "snd (PSO_init c (pr1\<lparr>heap := (heap pr1)[a := upd (heap pr1 ! a)]\<rparr>))
      = pr1\<lparr>heap := (heap pr1)[a := upd (heap pr1 ! a)]\<rparr>"
    using a by (intro PSO_init_again) simp
  ultimately show ?thesis using pr2 e1 e2 a
    by (simp add: PSO_getattr_def PSO_setattr_def)
qed

theorem handles_share_instance_witness:
  "wf_process fresh_process
   \<and> PSO_init example_consts fresh_process
       = (\<lparr>EventHandler_instance = 0\<rparr>, \<lparr>iInstance = Some 0, heap = [Singleton_init example_consts True]\<rparr>)
   \<and> PSO_init example_consts \<lparr>iInstance = Some 0, heap = [Singleton_init example_consts True]\<rparr>
       = (\<lparr>EventHandler_instance = 0\<rparr>, \<lparr>iInstance = Some 0, heap = [Singleton_init example_consts True]\<rparr>)
   \<and> (\<exists>pr3. PSO_setattr \<lparr>EventHandler_instance = 0\<rparr> (setTopology LocalTopology)
                \<lparr>iInstance = Some 0, heap = [Singleton_init example_consts True]\<rparr> = Inr pr3
           \<and> PSO_getattr \<lparr>EventHandler_instance = 0\<rparr> topology pr3 = Inr (Some LocalTopology)
           \<and> snd (PSO_init example_consts pr3) = pr3)"
proof -
  let ?pr1 = "\<lparr>iInstance = Some 0, heap = [Singleton_init example_consts True]\<rparr>"
  let ?e = "\<lparr>EventHandler_instance = 0\<rparr>"
  have w: "wf_process fresh_process"
    by (simp add: wf_process_def fresh_process_def)
  have i1: "PSO_init example_consts fresh_process = (?e, ?pr1)"
    by (simp add: PSO_init_def fresh_process_def Let_def)
  have i2: "PSO_init example_consts ?pr1 = (?e, ?pr1)"
    by (simp add: PSO_init_def Let_def)
  from handles_share_instance [OF w i1 i2, of topology "setTopology LocalTopology"]
  obtain a pr3 where "iInstance ?pr1 = Some a"
    "PSO_setattr ?e (setTopology LocalTopology) ?pr1 = Inr pr3"
    "PSO_getattr ?e topology pr3 = Inr (topology (setTopology LocalTopology (heap ?pr1 ! a)))"
    "snd (PSO_init example_consts pr3) = pr3"
    by blast
  then have "PSO_setattr ?e (setTopology LocalTopology) ?pr1 = Inr pr3
           \<and> PSO_getattr ?e topology pr3 = Inr (Some LocalTopology)
           \<and> snd (PSO_init example_consts pr3) = pr3"
    by (simp add: setTopology_def)
  with w i1 i2 show ?thesis by blast
qed

subsection \<open>The run\<close>

lemma count_startup_calls [simp]: "count_list (startup_calls p) UpdateParticlesPosition = 0"
  by (simp add: startup_calls_def split: option.splits)

lemma count_final_calls [simp]: "count_list (final_calls fs p) UpdateParticlesPosition = 0"
  by (simp add: final_calls_def stats_calls_def dump_calls_def split: option.splits)

lemma execute_quiet:
  assumes "checkParametersSet (engine w) = Inr (engine w)"
    and "currentStep (engine w) < timeSteps (engine w)"
    and "timeSteps (engine w) \<noteq> 0"
    and "pending w = None" and "adapter_ok (engine w)"
    and "n = nat (timeSteps (engine w) - currentStep (engine w))"
  shows "\<exists>w2. execute ev fs w = Some (Inr (emits (final_calls fs (engine w2)) w2))
     \<and> pending w2 = None
     \<and> same_setup ((engine w)\<lparr>time_init := Some (now ev)\<rparr>) (engine w2)
     \<and> currentStep (engine w2) = timeSteps (engine w)
     \<and> inertiaFactor (engine w2)
         = (if psoType (engine w) = INERTIA
            then Some (the (inertiaFactor (engine w)) - real n * the (inertiaFactorMinus (engine w)))
            else inertiaFactor (engine w))
     \<and> count_list (map snd (trace w2)) UpdateParticlesPosition
         = count_list (map snd (trace w)) UpdateParticlesPosition + n
     \<and> trace w2 = trace w @ map (Pair (currentStep (engine w))) (startup_calls (engine w))
           @ loop_trace ev fs ((engine w)\<lparr>time_init := Some (now ev)\<rparr>) n"
proof -
  let ?w1 = "emits (startup_calls (engine w)) (w\<lparr>engine := (engine w)\<lparr>time_init := Some (now ev)\<rparr>\<rparr>)"
  have su: "startup ev w = Inr ?w1"
    using assms(4,1) by (rule startup_quiet)
  have r1: "runnable (engine ?w1)"
    using assms(1,3,5)
    by (auto simp: checkParametersSet_Inr runnable_def reportable_def adapter_ok_def not_falsy)
  have p1: "pending ?w1 = None" using assms(4) by simp
  have lt: "currentStep (engine ?w1) < timeSteps (engine ?w1)" using assms(2) by simp
  have n: "n = nat (timeSteps (engine ?w1) - currentStep (engine ?w1))" using assms(6) by simp
  from run_loop_quiet [OF p1 r1 lt n, of ev fs] obtain w2 where w2:
    "run_loop ev fs ?w1 = Some (Inr w2)" "pending w2 = None" "runnable (engine w2)"
    "same_setup (engine ?w1) (engine w2)" "currentStep (engine w2) = timeSteps (engine ?w1)"
    "inertiaFactor (engine w2)
         = (if psoType (engine ?w1) = INERTIA
            then Some (the (inertiaFactor (engine ?w1)) - real n * the (inertiaFactorMinus (engine ?w1)))
            else inertiaFactor (engine ?w1))"
    "count_list (map snd (trace w2)) UpdateParticlesPosition
         = count_list (map snd (trace ?w1)) UpdateParticlesPosition + n"
    "trace w2 = trace ?w1 @ loop_trace ev fs (engine ?w1) n"
    by blast
  have ti: "time_init (engine w2) \<noteq> None" using w2(4) by (simp add: same_setup_def)
  have rp: "reportable (engine w2)" using w2(3) by (simp add: runnable_def)
  have fo: "final_output fs w2 = Inr (emits (final_calls fs (engine w2)) w2)"
    using w2(2) rp ti by (rule final_output_quiet)
  have ex: "execute ev fs w = Some (Inr (emits (final_calls fs (engine w2)) w2))"
    by (simp add: execute_def su w2(1) fo)
  show ?thesis
    using ex w2(2,4,5,6,7,8) by (intro exI [of _ w2]) simp
qed

text \<open>
  Claim C2: for a configured engine with a budget of at least one step, \<open>currentStep\<close> at
  0 and no interrupt, \<open>execute\<close> returns. \<open>constructSolution\<close> increments \<open>currentStep\<close> and
  returns whether it has reached \<open>timeSteps\<close>, so the loop stops when \<open>currentStep\<close> equals
  \<open>timeSteps\<close>, after exactly \<open>timeSteps\<close> calls of \<open>updateParticlesPosition\<close>. A report
  adapter, when there is one, is taken to have a non-zero \<open>statsGenFreq\<close>.
\<close>

theorem execute_terminates:
  assumes "checkParametersSet (engine w) = Inr (engine w)"
    and "currentStep (engine w) = 0" and "1 \<le> timeSteps (engine w)"
    and "pending w = None" and "adapter_ok (engine w)"
  shows "(constructSolution w0 = Inr (w0', b)
            \<longrightarrow> currentStep (engine w0') = currentStep (engine w0) + 1
              \<and> timeSteps (engine w0') = timeSteps (engine w0)
              \<and> b = (currentStep (engine w0') = timeSteps (engine w0')))
     \<and> (\<exists>wf. execute ev fs w = Some (Inr wf)
           \<and> currentStep (engine wf) = timeSteps (engine w)
           \<and> count_list (map snd (trace wf)) UpdateParticlesPosition
               = count_list (map snd (trace w)) UpdateParticlesPosition + nat (timeSteps (engine w)))"
proof
  show "constructSolution w0 = Inr (w0', b)
            \<longrightarrow> currentStep (engine w0') = currentStep (engine w0) + 1
              \<and> timeSteps (engine w0') = timeSteps (engine w0)
              \<and> b = (currentStep (engine w0') = timeSteps (engine w0'))"
    using constructSolution_Inr [of w0 w0' b] by (auto simp: same_setup_def)
next
  have lt: "currentStep (engine w) < timeSteps (engine w)" and nz: "timeSteps (engine w) \<noteq> 0"
    using assms(2,3) by simp_all
  have n: "nat (timeSteps (engine w)) = nat (timeSteps (engine w) - currentStep (engine w))"
    using assms(2) by simp
  from execute_quiet [OF assms(1) lt nz assms(4,5) n, of ev fs] obtain w2 where w2:
    "execute ev fs w = Some (Inr (emits (final_calls fs (engine w2)) w2))"
    "currentStep (engine w2) = timeSteps (engine w)"
    "count_list (map snd (trace w2)) UpdateParticlesPosition
         = count_list (map snd (trace w)) UpdateParticlesPosition + nat (timeSteps (engine w))"
    by blast
  show "\<exists>wf. execute ev fs w = Some (Inr wf)
           \<and> currentStep (engine wf) = timeSteps (engine w)
           \<and> count_list (map snd (trace wf)) UpdateParticlesPosition
               = count_list (map snd (trace w)) UpdateParticlesPosition + nat (timeSteps (engine w))"
    using w2 by (intro exI [of _ "emits (final_calls fs (engine w2)) w2"]) simp
qed

theorem execute_terminates_witness:
  "checkParametersSet (engine (start_world example_engine None)) = Inr (engine (start_world example_engine None))
   \<and> currentStep (engine (start_world example_engine None)) = 0
   \<and> 1 \<le> timeSteps (engine (start_world example_engine None))
   \<and> pending (start_world example_engine None) = None
   \<and> adapter_ok (engine (start_world example_engine None))
   \<and> (\<exists>wf. execute example_env 1 (start_world example_engine None) = Some (Inr wf)
         \<and> currentStep (engine wf) = 3
         \<and> count_list (map snd (trace wf)) UpdateParticlesPosition = 3)"
proof -
  let ?w = "start_world example_engine None"
  have a: "checkParametersSet (engine ?w) = Inr (engine ?w)"
    by (simp add: checkParametersSet_def start_world_def example_engine_def)
  have b: "currentStep (engine ?w) = 0" "1 \<le> timeSteps (engine ?w)" "pending ?w = None"
    "adapter_ok (engine ?w)"
    by (simp_all add: start_world_def example_engine_def adapter_ok_def)
  have t: "timeSteps (engine ?w) = 3" "trace ?w = []"
    by (simp_all add: start_world_def example_engine_def)
  from execute_terminates [OF a b, of _ _ _ example_env 1]
  have "\<exists>wf. execute example_env 1 ?w = Some (Inr wf)
         \<and> currentStep (engine wf) = timeSteps (engine ?w)
         \<and> count_list (map snd (trace wf)) UpdateParticlesPosition
               = count_list (map snd (trace ?w)) UpdateParticlesPosition + nat (timeSteps (engine ?w))"
    by (rule conjunct2)
  then have "\<exists>wf. execute example_env 1 ?w = Some (Inr wf)
         \<and> currentStep (engine wf) = 3
         \<and> count_list (map snd (trace wf)) UpdateParticlesPosition = 3"
    unfolding t by simp
  with a b show ?thesis by blast
qed

lemmas run_defs = execute_def startup_def lift_def checkParametersSet_def initialize_def
  constructSolution_def loop_body_def final_output_def printStats_def printTimeElapsed_def
  dumpStatsReport_def interact_def topology_call_def call_def tick_def emit_def
  updateInertiaFactor_def calls_of_def start_world_def example_engine_def example_env_def
  report_engine_def falsy_def Let_def

lemma final_calls_form:
  "\<exists>rp. final_calls fs p
       = (if fs \<noteq> 0 then [PrintStep (currentStep p), TopologyStatistics, TopologyPrintStats,
                             PrintTimeElapsed] else []) @ rp
     \<and> (case reportAdapter p of
           None \<Rightarrow> rp = []
         | Some a \<Rightarrow>
             if currentStep p mod statsGenFreq a = 0
             then rp = [TopologyStatistics, TopologyGetStatistics, ReportInsert (currentStep p),
                        ReportSaveAndClose]
             else rp = [] \<or> rp = [ReportSaveAndClose])"
  by (simp add: final_calls_def stats_calls_def dump_calls_def split: option.splits)

lemma reportAdapter_after_step [simp]: "reportAdapter (after_step p) = reportAdapter p"
  by (simp add: after_step_def)

lemma loop_trace_no_report:
  "reportAdapter p = None \<Longrightarrow> x \<in> set (loop_trace ev fs p n) \<Longrightarrow> \<not> report_call (snd x)"
proof (induction n arbitrary: p)
  case 0
  then show ?case by simp
next
  case (Suc n)
  have "reportAdapter (after_step p) = None" using Suc.prems(1) by simp
  from Suc.IH [OF this] Suc.prems show ?case
    by (auto simp: step_calls_def body_calls_def stats_calls_def report_call_def
        split: if_splits)
qed

lemmas trace_defs = startup_calls_def step_calls_def after_step_def body_calls_def
  stats_calls_def dump_calls_def

text \<open>
  Claim C8, as stated: on termination the final statistics are computed and, with a report
  adapter, inserted and the adapter saved and closed, whatever \<open>freq_stats\<close> and
  \<open>statsGenFreq\<close>. With \<open>freq_stats = 0\<close>, a budget of 3 steps and an adapter of frequency 2
  the run ends after the third step without a call of \<open>statistics\<close>, \<open>insert\<close> or
  \<open>saveAndClose\<close>.
\<close>

theorem execute_unaligned_budget_counterexample:
  "calls_of (execute example_env 0 (start_world (report_engine 2) None))
     = Some [ReportOpen, TopologyInitialize, PrintInitialized, PrintStarting,
             UpdateParticlesPosition, UpdateParticlesInformation,
             UpdateParticlesPosition, UpdateParticlesInformation,
             UpdateParticlesPosition, UpdateParticlesInformation]"
  by (simp add: run_defs run_loop.simps)

text \<open>
  Claim C8, amended: a run that is not interrupted ends with \<open>currentStep = timeSteps\<close>.
  What it has called is: the calls of the start, those of the loop, and then the final
  output, which is the calls of \<open>printStats\<close> and \<open>printTimeElapsed\<close> when \<open>freq_stats\<close> is not 0
  and none of them when it is 0, followed by the report calls. There are no report calls
  without an adapter, in the whole run. When \<open>timeSteps\<close> is a multiple of \<open>statsGenFreq\<close>
  they are the statistics, the insertion for the last step and \<open>saveAndClose\<close>; when it is
  not, no statistics are computed and nothing is inserted for the last step.
\<close>

theorem execute_final_output:
  assumes "checkParametersSet (engine w) = Inr (engine w)"
    and "currentStep (engine w) = 0" and "1 \<le> timeSteps (engine w)"
    and "pending w = None" and "adapter_ok (engine w)"
  shows "\<exists>wf rp. execute ev fs w = Some (Inr wf)
     \<and> currentStep (engine wf) = timeSteps (engine w)
     \<and> trace wf = trace w
          @ map (Pair 0) (startup_calls (engine w))
          @ loop_trace ev fs ((engine w)\<lparr>time_init := Some (now ev)\<rparr>) (nat (timeSteps (engine w)))
          @ map (Pair (timeSteps (engine w)))
              ((if fs \<noteq> 0 then [PrintStep (timeSteps (engine w)), TopologyStatistics,
                                   TopologyPrintStats, PrintTimeElapsed] else []) @ rp)
     \<and> (case reportAdapter (engine w) of
           None \<Rightarrow> rp = []
         | Some a \<Rightarrow>
             if timeSteps (engine w) mod statsGenFreq a = 0
             then rp = [TopologyStatistics, TopologyGetStatistics,
                        ReportInsert (timeSteps (engine w)), ReportSaveAndClose]
             else rp = [] \<or> rp = [ReportSaveAndClose])
     \<and> (reportAdapter (engine w) = None
          \<longrightarrow> (\<forall>x\<in>set (trace wf). x \<in> set (trace w) \<or> \<not> report_call (snd x)))"
proof -
  let ?T = "timeSteps (engine w)"
  let ?p1 = "(engine w)\<lparr>time_init := Some (now ev)\<rparr>"
  have lt: "currentStep (engine w) < ?T" and nz: "?T \<noteq> 0"
    using assms(2,3) by simp_all
  have n: "nat ?T = nat (?T - currentStep (engine w))" using assms(2) by simp
  from execute_quiet [OF assms(1) lt nz assms(4,5) n, of ev fs] obtain w2 where w2:
    "execute ev fs w = Some (Inr (emits (final_calls fs (engine w2)) w2))"
    "same_setup ?p1 (engine w2)"
    "currentStep (engine w2) = ?T"
    "trace w2 = trace w @ map (Pair (currentStep (engine w))) (startup_calls (engine w))
           @ loop_trace ev fs ?p1 (nat ?T)"
    by blast
  have ra: "reportAdapter (engine w2) = reportAdapter (engine w)"
    using w2(2) by (simp add: same_setup_def)
  from final_calls_form [of fs "engine w2"] obtain rp where rp:
    "final_calls fs (engine w2)
       = (if fs \<noteq> 0 then [PrintStep ?T, TopologyStatistics, TopologyPrintStats,
                             PrintTimeElapsed] else []) @ rp"
    "case reportAdapter (engine w) of
           None \<Rightarrow> rp = []
         | Some a \<Rightarrow>
             if ?T mod statsGenFreq a = 0
             then rp = [TopologyStatistics, TopologyGetStatistics, ReportInsert ?T,
                        ReportSaveAndClose]
             else rp = [] \<or> rp = [ReportSaveAndClose]"
    unfolding ra w2(3) by blast
  let ?wf = "emits (final_calls fs (engine w2)) w2"
  have tr: "trace ?wf = trace w
          @ map (Pair 0) (startup_calls (engine w))
          @ loop_trace ev fs ?p1 (nat ?T)
          @ map (Pair ?T)
              ((if fs \<noteq> 0 then [PrintStep ?T, TopologyStatistics,
                                   TopologyPrintStats, PrintTimeElapsed] else []) @ rp)"
    using rp(1) w2(3,4) assms(2) by simp
  have cs: "currentStep (engine ?wf) = ?T"
    using w2(3) by simp
  have nr: "reportAdapter (engine w) = None
          \<longrightarrow> (\<forall>x\<in>set (trace ?wf). x \<in> set (trace w) \<or> \<not> report_call (snd x))"
  proof (intro impI ballI)
    fix x assume none: "reportAdapter (engine w) = None" and x: "x \<in> set (trace ?wf)"
    have rp0: "rp = []" using rp(2) none by simp
    have "reportAdapter ?p1 = None" using none by simp
    note lp = loop_trace_no_report [OF this, of _ ev fs "nat ?T"]
    let ?pr = "if fs \<noteq> 0 then [PrintStep ?T, TopologyStatistics,
                                   TopologyPrintStats, PrintTimeElapsed] else []"
    have "x \<in> set (trace w) \<or> x \<in> set (map (Pair 0) (startup_calls (engine w)))
        \<or> x \<in> set (loop_trace ev fs ?p1 (nat ?T)) \<or> x \<in> set (map (Pair ?T) ?pr)"
      using x unfolding tr rp0 by auto
    moreover have "x \<in> set (map (Pair 0) (startup_calls (engine w))) \<Longrightarrow> \<not> report_call (snd x)"
      using none by (auto simp: startup_calls_def report_call_def)
    moreover have "x \<in> set (loop_trace ev fs ?p1 (nat ?T)) \<Longrightarrow> \<not> report_call (snd x)"
      by (rule lp)
    moreover have "x \<in> set (map (Pair ?T) ?pr) \<Longrightarrow> \<not> report_call (snd x)"
      by (auto simp: report_call_def split: if_splits)
    ultimately show "x \<in> set (trace w) \<or> \<not> report_call (snd x)"
      by blast
  qed
  show ?thesis
    by (intro exI [of _ ?wf] exI [of _ rp] conjI) (rule w2(1) cs tr rp(2) nr)+
qed


theorem execute_final_output_witness:
  "checkParametersSet (engine (start_world (report_engine 3) None))
      = Inr (engine (start_world (report_engine 3) None))
   \<and> currentStep (engine (start_world (report_engine 3) None)) = 0
   \<and> 1 \<le> timeSteps (engine (start_world (report_engine 3) None))
   \<and> pending (start_world (report_engine 3) None) = None
   \<and> adapter_ok (engine (start_world (report_engine 3) None))
   \<and> (\<exists>wf. execute example_env 1 (start_world (report_engine 3) None) = Some (Inr wf)
         \<and> currentStep (engine wf) = 3
         \<and> trace wf =
             map (Pair 0) [ReportOpen, TopologyInitialize, PrintInitialized, PrintStarting,
                           UpdateParticlesPosition, UpdateParticlesInformation]
             @ map (Pair 1) [PrintStep 1, TopologyStatistics, TopologyPrintStats,
                             UpdateParticlesPosition, UpdateParticlesInformation]
             @ map (Pair 2) [PrintStep 2, TopologyStatistics, TopologyPrintStats,
                             UpdateParticlesPosition, UpdateParticlesInformation]
             @ map (Pair 3) [PrintStep 3, TopologyStatistics, TopologyPrintStats, PrintTimeElapsed,
                             TopologyStatistics, TopologyGetStatistics, ReportInsert 3,
                             ReportSaveAndClose])"
proof -
  let ?w = "start_world (report_engine 3) None"
  have a: "checkParametersSet (engine ?w) = Inr (engine ?w)"
    by (simp add: checkParametersSet_def start_world_def example_engine_def report_engine_def)
  have b: "currentStep (engine ?w) = 0" "1 \<le> timeSteps (engine ?w)" "pending ?w = None"
    "adapter_ok (engine ?w)"
    by (simp_all add: start_world_def example_engine_def adapter_ok_def report_engine_def)
  have t: "timeSteps (engine ?w) = 3" "reportAdapter (engine ?w) = Some \<lparr>statsGenFreq = 3\<rparr>"
    "trace ?w = []"
    by (simp_all add: start_world_def example_engine_def report_engine_def)
  have l: "map (Pair 0) (startup_calls (engine ?w))
      @ loop_trace example_env 1 ((engine ?w)\<lparr>time_init := Some (now example_env)\<rparr>) (nat 3)
    = map (Pair 0) [ReportOpen, TopologyInitialize, PrintInitialized, PrintStarting,
                           UpdateParticlesPosition, UpdateParticlesInformation]
             @ map (Pair 1) [PrintStep 1, TopologyStatistics, TopologyPrintStats,
                             UpdateParticlesPosition, UpdateParticlesInformation]
             @ map (Pair 2) [PrintStep 2, TopologyStatistics, TopologyPrintStats,
                             UpdateParticlesPosition, UpdateParticlesInformation]"
    by (simp add: eval_nat_numeral trace_defs start_world_def example_engine_def
        report_engine_def example_env_def)
  from execute_final_output [OF a b, of example_env 1] obtain wf rp where wf:
    "execute example_env 1 ?w = Some (Inr wf)" "currentStep (engine wf) = timeSteps (engine ?w)"
    "trace wf = trace ?w
          @ map (Pair 0) (startup_calls (engine ?w))
          @ loop_trace example_env 1 ((engine ?w)\<lparr>time_init := Some (now example_env)\<rparr>)
              (nat (timeSteps (engine ?w)))
          @ map (Pair (timeSteps (engine ?w)))
              ((if (1::int) \<noteq> 0 then [PrintStep (timeSteps (engine ?w)), TopologyStatistics,
                                   TopologyPrintStats, PrintTimeElapsed] else []) @ rp)"
    "case reportAdapter (engine ?w) of
           None \<Rightarrow> rp = []
         | Some a \<Rightarrow>
             if timeSteps (engine ?w) mod statsGenFreq a = 0
             then rp = [TopologyStatistics, TopologyGetStatistics,
                        ReportInsert (timeSteps (engine ?w)), ReportSaveAndClose]
             else rp = [] \<or> rp = [ReportSaveAndClose]"
    by blast
  have rp: "rp = [TopologyStatistics, TopologyGetStatistics, ReportInsert 3, ReportSaveAndClose]"
    using wf(4) unfolding t by simp
  have c: "currentStep (engine wf) = 3" using wf(2) unfolding t .
  have "trace wf = (map (Pair 0) (startup_calls (engine ?w))
      @ loop_trace example_env 1 ((engine ?w)\<lparr>time_init := Some (now example_env)\<rparr>) (nat 3))
      @ map (Pair 3) [PrintStep 3, TopologyStatistics, TopologyPrintStats, PrintTimeElapsed,
                             TopologyStatistics, TopologyGetStatistics, ReportInsert 3,
                             ReportSaveAndClose]"
    using wf(3) unfolding t rp by simp
  then have d: "trace wf =
             map (Pair 0) [ReportOpen, TopologyInitialize, PrintInitialized, PrintStarting,
                           UpdateParticlesPosition, UpdateParticlesInformation]
             @ map (Pair 1) [PrintStep 1, TopologyStatistics, TopologyPrintStats,
                             UpdateParticlesPosition, UpdateParticlesInformation]
             @ map (Pair 2) [PrintStep 2, TopologyStatistics, TopologyPrintStats,
                             UpdateParticlesPosition, UpdateParticlesInformation]
             @ map (Pair 3) [PrintStep 3, TopologyStatistics, TopologyPrintStats, PrintTimeElapsed,
                             TopologyStatistics, TopologyGetStatistics, ReportInsert 3,
                             ReportSaveAndClose]"
    unfolding l by simp
  show ?thesis
    by (intro conjI exI [of _ wf]) (rule a b wf(1) c d)+
qed

text \<open>
  Claim C9: with a report adapter, one observation is inserted every \<open>statsGenFreq\<close> steps
  whatever \<open>freq_stats\<close> is. In the code the insertion of the loop is inside
  \<open>if freq_stats != 0\<close>: with \<open>freq_stats = 0\<close>, the default, and an adapter of frequency 1
  a run of 3 steps opens the adapter and inserts the last step alone, after the loop.
\<close>

theorem execute_report_without_printing:
  "calls_of (execute example_env 0 (start_world (report_engine 1) None))
     = Some [ReportOpen, TopologyInitialize, PrintInitialized, PrintStarting,
             UpdateParticlesPosition, UpdateParticlesInformation,
             UpdateParticlesPosition, UpdateParticlesInformation,
             UpdateParticlesPosition, UpdateParticlesInformation,
             TopologyStatistics, TopologyGetStatistics, ReportInsert 3, ReportSaveAndClose]"
  by (simp add: run_defs run_loop.simps)

text \<open>
  The same run with printing switched on inserts every step, and with \<open>freq_stats = 0\<close>
  the body of the loop does nothing at all.
\<close>

lemma execute_report_with_printing:
  "calls_of (execute example_env 7 (start_world (report_engine 1) None))
     = Some [ReportOpen, TopologyInitialize, PrintInitialized, PrintStarting,
             UpdateParticlesPosition, UpdateParticlesInformation,
             PrintStep 1, TopologyStatistics, TopologyPrintStats,
             TopologyStatistics, TopologyGetStatistics, ReportInsert 1,
             UpdateParticlesPosition, UpdateParticlesInformation,
             TopologyStatistics, TopologyGetStatistics, ReportInsert 2,
             UpdateParticlesPosition, UpdateParticlesInformation,
             PrintStep 3, TopologyStatistics, TopologyPrintStats, PrintTimeElapsed,
             TopologyStatistics, TopologyGetStatistics, ReportInsert 3, ReportSaveAndClose]"
  by (simp add: run_defs run_loop.simps)

lemma loop_body_without_printing: "loop_body ev 0 w = Inr w"
  by (simp add: loop_body_def)




text \<open>
  The interrupt can also arrive after the last increment, before the loop is left: it is
  caught with \<open>currentStep = timeSteps\<close>.
\<close>

lemma execute_interrupted_after_last_step:
  "execute example_env 0 (start_world example_engine (Some 14))
     = Some (Inr \<lparr>engine = example_engine\<lparr>time_init := Some 0, currentStep := 3\<rparr>,
                   trace = map (Pair 0) [TopologyInitialize, PrintInitialized, PrintStarting,
                                         UpdateParticlesPosition, UpdateParticlesInformation]
                           @ map (Pair 1) [UpdateParticlesPosition, UpdateParticlesInformation]
                           @ map (Pair 2) [UpdateParticlesPosition, UpdateParticlesInformation]
                           @ map (Pair 3) [PrintBreak],
                   pending = None\<rparr>)"
  by (simp add: run_defs run_loop.simps)

text \<open>
  Claim C4: after \<open>setInitialInertiaFactor(start, end)\<close> and \<open>timeSteps\<close> steps the inertia
  factor equals \<open>end\<close>, for any start and end. The decrement is \<open>abs(start - end) / timeSteps\<close>,
  so the factor always goes down: with start 0.4, end 0.9 and 2 steps the decrement is 0.25
  and the run ends with the factor at -0.1, not at 0.9.
\<close>

theorem inertia_increasing_schedule:
  "\<exists>p1 wf. setInitialInertiaFactor (2 / 5) (9 / 10) increasing_inertia_engine = Inr p1
     \<and> inertiaFactorMinus p1 = Some (1 / 4) \<and> inertiaFactor p1 = Some (2 / 5)
     \<and> execute example_env 0 (start_world p1 None) = Some (Inr wf)
     \<and> currentStep (engine wf) = timeSteps (engine wf)
     \<and> inertiaFactor (engine wf) = Some (- (1 / 10))"
proof -
  let ?p1 = "increasing_inertia_engine\<lparr>inertiaFactorMinus := Some (1 / 4), inertiaFactor := Some (2 / 5)\<rparr>"
  have a: "setInitialInertiaFactor (2 / 5) (9 / 10) increasing_inertia_engine = Inr ?p1"
    by (simp add: setInitialInertiaFactor_def increasing_inertia_engine_def example_engine_def)
  let ?wf = "\<lparr>engine = ?p1\<lparr>time_init := Some 0, currentStep := 2, inertiaFactor := Some (- (1 / 10))\<rparr>,
                    trace = map (Pair 0) [TopologyInitialize, PrintInitialized, PrintStarting,
                       UpdateParticlesPosition, UpdateParticlesInformation, UpdateInertiaFactor]
                      @ map (Pair 1) [UpdateParticlesPosition, UpdateParticlesInformation, UpdateInertiaFactor],
                    pending = None\<rparr>"
  have b: "execute example_env 0 (start_world ?p1 None) = Some (Inr ?wf)"
    by (simp add: run_defs run_loop.simps increasing_inertia_engine_def)
  have c: "inertiaFactorMinus ?p1 = Some (1 / 4)" "inertiaFactor ?p1 = Some (2 / 5)"
    "currentStep (engine ?wf) = timeSteps (engine ?wf)"
    "inertiaFactor (engine ?wf) = Some (- (1 / 10))"
    by (simp_all add: increasing_inertia_engine_def example_engine_def)
  show ?thesis
    by (intro exI [of _ ?p1] exI [of _ ?wf] conjI) (rule a b c)+
qed

text \<open>
  In exact arithmetic the factor after the run is \<open>start - |start - end|\<close>, which is \<open>end\<close>
  when the schedule decreases.
\<close>

lemma inertia_after_run:
  assumes "psoType p = INERTIA" and "setInitialInertiaFactor s e p = Inr p1"
    and "checkParametersSet p1 = Inr p1"
    and "currentStep p = 0" and "1 \<le> timeSteps p" and "adapter_ok p"
  shows "\<exists>wf. execute ev fs \<lparr>engine = p1, trace = tr, pending = None\<rparr> = Some (Inr wf)
     \<and> inertiaFactor (engine wf) = Some (s - \<bar>s - e\<bar>)
     \<and> (e \<le> s \<longrightarrow> inertiaFactor (engine wf) = Some e)"
proof -
  let ?w = "\<lparr>engine = p1, trace = tr, pending = None\<rparr>"
  have p1: "p1 = p\<lparr>inertiaFactorMinus := Some (\<bar>s - e\<bar> / real_of_int (timeSteps p)),
                    inertiaFactor := Some s\<rparr>"
    using assms(1,2,5) by (auto simp: setInitialInertiaFactor_def split: if_splits)
  have c: "checkParametersSet (engine ?w) = Inr (engine ?w)" using assms(3) by simp
  have lt: "currentStep (engine ?w) < timeSteps (engine ?w)" "timeSteps (engine ?w) \<noteq> 0"
    "pending ?w = None" "adapter_ok (engine ?w)"
    using assms(4,5,6) by (simp_all add: p1 adapter_ok_def)
  from execute_quiet [OF c lt refl, of ev fs] obtain w2 where w2:
    "execute ev fs ?w = Some (Inr (emits (final_calls fs (engine w2)) w2))"
    "inertiaFactor (engine w2)
         = (if psoType (engine ?w) = INERTIA
            then Some (the (inertiaFactor (engine ?w))
                        - real (nat (timeSteps (engine ?w) - currentStep (engine ?w)))
                          * the (inertiaFactorMinus (engine ?w)))
            else inertiaFactor (engine ?w))"
    by blast
  have "real (nat (timeSteps p)) * (\<bar>s - e\<bar> / real_of_int (timeSteps p)) = \<bar>s - e\<bar>"
    using assms(5) by simp
  then have "inertiaFactor (engine w2) = Some (s - \<bar>s - e\<bar>)"
    using w2(2) assms(1,4) by (simp add: p1)
  then show ?thesis using w2(1)
    by (intro exI [of _ "emits (final_calls fs (engine w2)) w2"]) auto
qed

end
